theory Spec2Isabelle
  imports Main "HOL-Library.Word" "HOL-Library.Sublist"
begin

section \<open>JavaScript strings\<close>

text \<open>
  A JavaScript string is a sequence of UTF-16 code units. The functions of
  \<^verbatim>\<open>utils/git.js\<close> only compare code units, so a string is a list of 16-bit words.
  \<open>js\<close> writes an ASCII literal as such a list.
\<close>

type_synonym jsstring = "16 word list"

definition js :: "string \<Rightarrow> jsstring" where
  "js s = map of_char s"

text \<open>
  The code units that \<^verbatim>\<open>String.prototype.trim\<close> strips and that \<^verbatim>\<open>\s\<close> matches in a
  regular expression without the \<^verbatim>\<open>u\<close> flag: WhiteSpace and LineTerminator of ECMAScript
  (TAB, LF, VT, FF, CR, SP, NBSP, U+1680, U+2000..U+200A, LS, PS, U+202F, U+205F, U+3000,
  U+FEFF).
\<close>

definition isWhiteSpace :: "16 word \<Rightarrow> bool" where
  "isWhiteSpace c \<longleftrightarrow>
     c = 0x09 \<or> c = 0x0A \<or> c = 0x0B \<or> c = 0x0C \<or> c = 0x0D \<or> c = 0x20 \<or> c = 0xA0 \<or>
     c = 0x1680 \<or> (0x2000 \<le> c \<and> c \<le> 0x200A) \<or> c = 0x2028 \<or> c = 0x2029 \<or>
     c = 0x202F \<or> c = 0x205F \<or> c = 0x3000 \<or> c = 0xFEFF"

text \<open>\<^verbatim>\<open>s.trim()\<close>\<close>

definition trim :: "jsstring \<Rightarrow> jsstring" where
  "trim s = rev (dropWhile isWhiteSpace (rev (dropWhile isWhiteSpace s)))"

text \<open>
  \<^verbatim>\<open>s.split(sep)\<close> for a string separator: the matches of \<open>sep\<close> are taken from left to
  right and do not overlap; the empty string splits into one empty piece; an empty
  separator splits into the single code units.
\<close>

function split_ne :: "'a list \<Rightarrow> 'a list \<Rightarrow> 'a list list" where
  "split_ne sep [] = [[]]"
| "split_ne sep (c # cs) =
     (if sep \<noteq> [] \<and> prefix sep (c # cs)
      then [] # split_ne sep (drop (length sep) (c # cs))
      else (case split_ne sep cs of
              w # ws \<Rightarrow> (c # w) # ws
            | [] \<Rightarrow> [[c]]))"
  by pat_completeness auto
termination
  by (relation "measure (\<lambda>(sep, s). length s)") auto

definition split :: "'a list \<Rightarrow> 'a list \<Rightarrow> 'a list list" where
  "split sep s = (if sep = [] then map (\<lambda>c. [c]) s else split_ne sep s)"

text \<open>\<^verbatim>\<open>xs.join(sep)\<close>\<close>

fun join :: "'a list \<Rightarrow> 'a list list \<Rightarrow> 'a list" where
  "join sep [] = []"
| "join sep [x] = x"
| "join sep (x # y # ys) = x @ sep @ join sep (y # ys)"

text \<open>The two sentinel tokens: four section signs U+00A7, four plus-minus signs U+00B1.\<close>

definition DELIMITER :: jsstring where
  "DELIMITER = [0xA7, 0xA7, 0xA7, 0xA7]"

definition COMMIT_DELIMITER :: jsstring where
  "COMMIT_DELIMITER = [0xB1, 0xB1, 0xB1, 0xB1]"


section \<open>Bytes and UTF-8\<close>

text \<open>
  Files and the output of a process are bytes. The module reads and writes them as text:
  \<^verbatim>\<open>execFile\<close> decodes the output as UTF-8 (no \<^verbatim>\<open>encoding\<close> option is given),
  \<^verbatim>\<open>fs.readFileSync(p, 'utf-8')\<close> decodes the file and \<^verbatim>\<open>fs.writeFileSync(p, s, 'utf-8')\<close>
  encodes the string.
\<close>

type_synonym bytes = "8 word list"

definition ascii :: "string \<Rightarrow> bytes" where
  "ascii s = map of_char s"

text \<open>A code point as UTF-16 code units.\<close>

definition utf16 :: "int \<Rightarrow> jsstring" where
  "utf16 cp =
     (if cp < 0x10000 then [of_int cp]
      else [of_int (0xD800 + (cp - 0x10000) div 0x400), of_int (0xDC00 + (cp - 0x10000) mod 0x400)])"

text \<open>
  The UTF-8 decoder, which never fails: every byte that cannot start or continue a
  well-formed sequence gives the replacement character U+FFFD (one for each maximal
  ill-formed part), and so does a sequence cut short by the end of the input. The state is
  the code point read so far, the number of bytes still needed and the bounds of the
  next byte.
\<close>

type_synonym utf8_state = "int \<times> nat \<times> 8 word \<times> 8 word"

definition utf8_idle :: utf8_state where
  "utf8_idle = (0, 0, 0x80, 0xBF)"

definition utf8_lead :: "8 word \<Rightarrow> jsstring \<times> utf8_state" where
  "utf8_lead b =
     (if b \<le> 0x7F then ([of_int (uint b)], utf8_idle)
      else if 0xC2 \<le> b \<and> b \<le> 0xDF then ([], (uint b mod 0x20, 1, 0x80, 0xBF))
      else if 0xE0 \<le> b \<and> b \<le> 0xEF
        then ([], (uint b mod 0x10, 2, if b = 0xE0 then 0xA0 else 0x80, if b = 0xED then 0x9F else 0xBF))
      else if 0xF0 \<le> b \<and> b \<le> 0xF4
        then ([], (uint b mod 0x08, 3, if b = 0xF0 then 0x90 else 0x80, if b = 0xF4 then 0x8F else 0xBF))
      else ([0xFFFD], utf8_idle))"

fun utf8_decode_from :: "utf8_state \<Rightarrow> bytes \<Rightarrow> jsstring" where
  "utf8_decode_from (cp, needed, lower, upper) [] = (if needed = 0 then [] else [0xFFFD])"
| "utf8_decode_from (cp, needed, lower, upper) (b # bs) =
     (if needed = 0 then fst (utf8_lead b) @ utf8_decode_from (snd (utf8_lead b)) bs
      else if b < lower \<or> upper < b
        then 0xFFFD # fst (utf8_lead b) @ utf8_decode_from (snd (utf8_lead b)) bs
      else if needed = 1 then utf16 (cp * 0x40 + uint b mod 0x40) @ utf8_decode_from utf8_idle bs
      else utf8_decode_from (cp * 0x40 + uint b mod 0x40, needed - 1, 0x80, 0xBF) bs)"

definition utf8_decode :: "bytes \<Rightarrow> jsstring" where
  "utf8_decode bs = utf8_decode_from utf8_idle bs"

text \<open>
  The UTF-8 encoder: a surrogate pair is one code point, a surrogate that stands alone is
  written as U+FFFD.
\<close>

definition utf8_bytes :: "int \<Rightarrow> bytes" where
  "utf8_bytes cp =
     (if cp < 0x80 then [of_int cp]
      else if cp < 0x800 then [of_int (0xC0 + cp div 0x40), of_int (0x80 + cp mod 0x40)]
      else if cp < 0x10000
        then [of_int (0xE0 + cp div 0x1000), of_int (0x80 + cp div 0x40 mod 0x40),
              of_int (0x80 + cp mod 0x40)]
      else [of_int (0xF0 + cp div 0x40000), of_int (0x80 + cp div 0x1000 mod 0x40),
            of_int (0x80 + cp div 0x40 mod 0x40), of_int (0x80 + cp mod 0x40)])"

definition high_surrogate :: "16 word \<Rightarrow> bool" where
  "high_surrogate c \<longleftrightarrow> 0xD800 \<le> c \<and> c \<le> 0xDBFF"

definition low_surrogate :: "16 word \<Rightarrow> bool" where
  "low_surrogate c \<longleftrightarrow> 0xDC00 \<le> c \<and> c \<le> 0xDFFF"

fun utf8_encode :: "jsstring \<Rightarrow> bytes" where
  "utf8_encode [] = []"
| "utf8_encode [c] =
     (if high_surrogate c \<or> low_surrogate c then utf8_bytes 0xFFFD else utf8_bytes (uint c))"
| "utf8_encode (c # d # ds) =
     (if high_surrogate c \<and> low_surrogate d
        then utf8_bytes (0x10000 + (uint c - 0xD800) * 0x400 + (uint d - 0xDC00)) @ utf8_encode ds
      else if high_surrogate c \<or> low_surrogate c then utf8_bytes 0xFFFD @ utf8_encode (d # ds)
      else utf8_bytes (uint c) @ utf8_encode (d # ds))"

section \<open>Numbers and dates\<close>

definition digit_char :: "int \<Rightarrow> 16 word" where
  "digit_char d = 0x30 + of_int d"

text \<open>The decimal digits of an integer that is not negative.\<close>

function show_digits :: "int \<Rightarrow> jsstring" where
  "show_digits n =
     (if n < 10 then [digit_char n] else show_digits (n div 10) @ [digit_char (n mod 10)])"
  by pat_completeness auto
termination
  by (relation "measure nat") auto

declare show_digits.simps [simp del]

text \<open>
  Template-literal rendering \<^verbatim>\<open>`${n}`\<close> of a Number that is an integer. A Number is a
  double: \<open>to_double\<close> rounds an integer that is not negative to the nearest one (ties to
  even). The text has the fewest significant digits that read back as the same double (the
  closest such value): up to 21 digits are written out, a longer value is written with an
  exponent, and a value past the largest double is \<^verbatim>\<open>Infinity\<close>.
\<close>

function bit_length :: "int \<Rightarrow> nat" where
  "bit_length m = (if m \<le> 0 then 0 else Suc (bit_length (m div 2)))"
  by pat_completeness auto
termination
  by (relation "measure nat") auto

declare bit_length.simps [simp del]

definition to_double :: "int \<Rightarrow> int" where
  "to_double m =
     (if bit_length m \<le> 53 then m
      else let e = bit_length m - 53;
               q = m div 2 ^ e;
               r = m mod 2 ^ e;
               h = 2 ^ (e - 1)
           in (if h < r \<or> (r = h \<and> odd q) then q + 1 else q) * 2 ^ e)"

text \<open>The value with at most \<open>k\<close> significant digits that reads back as \<open>x\<close>, if any.\<close>

definition shortest_at :: "int \<Rightarrow> nat \<Rightarrow> int option" where
  "shortest_at x k =
     (let n = length (show_digits x) in
      if n \<le> k then Some x
      else let p = 10 ^ (n - k);
               lo = (x div p) * p;
               hi = lo + p;
               lo_ok = (to_double lo = x);
               hi_ok = (to_double hi = x)
           in if lo_ok \<and> hi_ok
                then Some (if x - lo < hi - x \<or> (x - lo = hi - x \<and> even (x div p)) then lo else hi)
              else if lo_ok then Some lo
              else if hi_ok then Some hi
              else None)"

fun shortest_from :: "int \<Rightarrow> nat \<Rightarrow> nat \<Rightarrow> int" where
  "shortest_from x k 0 = x"
| "shortest_from x k (Suc fuel) =
     (case shortest_at x k of Some v \<Rightarrow> v | None \<Rightarrow> shortest_from x (Suc k) fuel)"

definition strip_zeros :: "jsstring \<Rightarrow> jsstring" where
  "strip_zeros ds = rev (dropWhile (\<lambda>c. c = 0x30) (rev ds))"

definition number_text :: "int \<Rightarrow> jsstring" where
  "number_text i =
     (if i = 0 then js ''0''
      else let x = to_double \<bar>i\<bar>;
               sign = (if i < 0 then js ''-'' else [])
           in if 2 ^ 1024 \<le> x then sign @ js ''Infinity''
              else let ds = show_digits (shortest_from x 1 17);
                       s = strip_zeros ds
                   in if length ds \<le> 21 then sign @ ds
                      else sign @ [hd s] @ (if length s = 1 then [] else js ''.'' @ tl s) @
                           js ''e+'' @ show_digits (int (length ds) - 1))"

definition pad :: "nat \<Rightarrow> int \<Rightarrow> jsstring" where
  "pad k n = replicate (k - length (show_digits n)) 0x30 @ show_digits n"

text \<open>
  \<^verbatim>\<open>parseInt(s)\<close> with no radix: leading white space is skipped, then an optional sign,
  then an optional \<^verbatim>\<open>0x\<close>/\<^verbatim>\<open>0X\<close> prefix that selects radix 16 (radix 10 otherwise), then the
  longest run of digits of that radix. No digit gives \<^verbatim>\<open>NaN\<close>, here \<open>None\<close>; otherwise
  the result is the mathematical integer read (the Number is its nearest double).
\<close>

definition digit_of :: "int \<Rightarrow> 16 word \<Rightarrow> int option" where
  "digit_of radix c =
     (if 0x30 \<le> c \<and> c \<le> 0x39 then Some (uint c - 0x30)
      else if radix = 16 \<and> 0x61 \<le> c \<and> c \<le> 0x66 then Some (uint c - 0x61 + 10)
      else if radix = 16 \<and> 0x41 \<le> c \<and> c \<le> 0x46 then Some (uint c - 0x41 + 10)
      else None)"

definition parseInt :: "jsstring \<Rightarrow> int option" where
  "parseInt s =
     (let S = dropWhile isWhiteSpace s;
          sign = (if S \<noteq> [] \<and> hd S = 0x2D then - 1 else 1 :: int);
          S1 = (if S \<noteq> [] \<and> (hd S = 0x2B \<or> hd S = 0x2D) then tl S else S);
          hex = (take 2 S1 = [0x30, 0x78] \<or> take 2 S1 = [0x30, 0x58]);
          R = (if hex then 16 else 10 :: int);
          S2 = (if hex then drop 2 S1 else S1);
          Z = takeWhile (\<lambda>c. digit_of R c \<noteq> None) S2
      in if Z = [] then None
         else Some (sign * foldl (\<lambda>acc c. acc * R + the (digit_of R c)) 0 Z))"

text \<open>
  Days since 1970-01-01 to the proleptic Gregorian year, month and day, as
  \<^verbatim>\<open>Date.prototype.toISOString\<close> reads a time value in UTC.
\<close>

definition civil_from_days :: "int \<Rightarrow> int \<times> int \<times> int" where
  "civil_from_days days =
     (let z = days + 719468;
          era = z div 146097;
          doe = z mod 146097;
          yoe = (doe - doe div 1460 + doe div 36524 - doe div 146096) div 365;
          doy = doe - (365 * yoe + yoe div 4 - yoe div 100);
          mp = (5 * doy + 2) div 153;
          d = doy - (153 * mp + 2) div 5 + 1;
          m = (if mp < 10 then mp + 3 else mp - 9);
          y = yoe + era * 400 + (if m \<le> 2 then 1 else 0)
      in (y, m, d))"

text \<open>
  \<^verbatim>\<open>Date.prototype.toISOString\<close> of a valid time value: four digits for the years 0 to
  9999, a sign and six digits otherwise.
\<close>

definition year_str :: "int \<Rightarrow> jsstring" where
  "year_str y =
     (if 0 \<le> y \<and> y \<le> 9999 then pad 4 y
      else if y < 0 then 0x2D # pad 6 (- y)
      else 0x2B # pad 6 y)"

definition toISOString :: "int \<Rightarrow> jsstring" where
  "toISOString tv =
     (let days = tv div 86400000;
          t = tv mod 86400000
      in case civil_from_days days of (y, m, d) \<Rightarrow>
           year_str y @ js ''-'' @ pad 2 m @ js ''-'' @ pad 2 d @ js ''T'' @
           pad 2 (t div 3600000) @ js '':'' @ pad 2 (t div 60000 mod 60) @ js '':'' @
           pad 2 (t div 1000 mod 60) @ js ''.'' @ pad 3 (t mod 1000) @ js ''Z'')"

section \<open>Errors and the world outside the module\<close>

datatype js_error =
    ConfigPathNotInitialized  \<comment> \<open>\<^verbatim>\<open>new Error('CONFIG_PATH not initialized')\<close> of \<^verbatim>\<open>gitExec\<close>\<close>
  | GitError jsstring         \<comment> \<open>the rejection of \<^verbatim>\<open>execFile\<close>: exit code, timeout, output cap\<close>
  | InvalidTimeValue          \<comment> \<open>the \<^verbatim>\<open>RangeError\<close> of \<^verbatim>\<open>toISOString\<close> on an invalid Date\<close>
  | PathArgTypeError          \<comment> \<open>the \<^verbatim>\<open>TypeError\<close> of \<^verbatim>\<open>path.join\<close> on a non-string\<close>
  | FsError jsstring          \<comment> \<open>an error of \<^verbatim>\<open>fs\<close>, with its code\<close>

text \<open>
  \<^verbatim>\<open>new Date(parseInt(timestamp) * 1000).toISOString()\<close>. A Date is valid when its time
  value is a number of magnitude at most 8.64e15 ms; \<^verbatim>\<open>toISOString\<close> throws a
  \<^verbatim>\<open>RangeError\<close> on an invalid Date. Whenever the product is within that bound the
  integer read is below \<open>2^53\<close>, so the doubles are exact; beyond it rounding is monotone,
  so the Date stays invalid.
\<close>

definition date_of_timestamp :: "jsstring \<Rightarrow> js_error + jsstring" where
  "date_of_timestamp timestamp =
     (case parseInt timestamp of
        None \<Rightarrow> Inl InvalidTimeValue
      | Some n \<Rightarrow>
          if \<bar>n * 1000\<bar> \<le> 8640000000000000 then Inr (toISOString (n * 1000))
          else Inl InvalidTimeValue)"

text \<open>The lines written with \<^verbatim>\<open>console.error\<close> by \<^verbatim>\<open>gitCheckoutSafe\<close>.\<close>

datatype log_line =
    LogRestoreFailed jsstring js_error  \<comment> \<open>\<^verbatim>\<open>[git] Restore failed for ${filePath}: ${error.message}\<close>\<close>
  | LogRestoredBackup jsstring          \<comment> \<open>\<^verbatim>\<open>[git] Restored backup after failed restore: ${filePath}\<close>\<close>
  | LogCritical js_error                \<comment> \<open>\<^verbatim>\<open>[git] CRITICAL: Restore failed AND could not restore backup: ...\<close>\<close>

text \<open>
  A failing call of \<^verbatim>\<open>fs\<close> throws and may leave the file as it was or with other
  bytes (a write opens the file truncating it, then writes).
\<close>

datatype damage = Untouched | Partial bytes

datatype fault = Fault js_error damage

text \<open>
  Everything the module reads and writes outside itself:
  \<^item> \<open>CONFIG_PATH\<close>: \<^verbatim>\<open>global.CONFIG_PATH\<close>, \<open>None\<close> when it is not a string;
  \<^item> \<open>git\<close>: what running git with a working directory and an argument vector gives, the
    bytes it prints or the rejection of \<^verbatim>\<open>execFileAsync('git', args, {cwd, ...})\<close>;
  \<^item> \<open>path_join\<close>, \<open>path_dirname\<close>: Node's \<^verbatim>\<open>path.join\<close> and \<^verbatim>\<open>path.dirname\<close>;
  \<^item> \<open>files\<close>: the bytes of each file that can be read; \<open>dirs\<close>: the directories;
  \<^item> \<open>pending\<close>: what the operating system does to the next calls that change the
    file system, in order: \<open>None\<close> lets the call succeed, \<open>Some\<close> makes it throw
    (no entry left: the call succeeds);
  \<^item> \<open>console\<close>: the lines written to \<^verbatim>\<open>console.error\<close>, oldest first.
\<close>

record world =
  CONFIG_PATH :: "jsstring option"
  git :: "jsstring \<Rightarrow> jsstring list \<Rightarrow> js_error + bytes"
  path_join :: "jsstring \<Rightarrow> jsstring \<Rightarrow> jsstring"
  path_dirname :: "jsstring \<Rightarrow> jsstring"
  files :: "jsstring \<rightharpoonup> bytes"
  dirs :: "jsstring set"
  pending :: "fault option list"
  console :: "log_line list"

text \<open>Truthiness of a value that is a string, \<^verbatim>\<open>null\<close> or \<^verbatim>\<open>undefined\<close>.\<close>

definition truthy :: "jsstring option \<Rightarrow> bool" where
  "truthy v = (case v of None \<Rightarrow> False | Some s \<Rightarrow> s \<noteq> [])"

text \<open>\<^verbatim>\<open>gitExec(args)\<close>: the \<^verbatim>\<open>stdout\<close> of the result, a string, or the error thrown.\<close>

definition gitExec :: "world \<Rightarrow> jsstring list \<Rightarrow> js_error + jsstring" where
  "gitExec w args =
     (case CONFIG_PATH w of
        None \<Rightarrow> Inl ConfigPathNotInitialized
      | Some cwd \<Rightarrow>
          if cwd = [] then Inl ConfigPathNotInitialized
          else (case git w cwd args of
                  Inl e \<Rightarrow> Inl e
                | Inr out \<Rightarrow> Inr (utf8_decode out)))"

section \<open>The history parser\<close>

text \<open>A record of the full log; its date is the text that \<^verbatim>\<open>toISOString\<close> returned.\<close>

record commit =
  hash :: jsstring
  short :: jsstring
  authorName :: jsstring
  authorEmail :: jsstring
  date :: jsstring
  message :: jsstring
  body :: jsstring
  status :: "jsstring option"  \<comment> \<open>\<^verbatim>\<open>'A'\<close>, \<^verbatim>\<open>'M'\<close>, \<^verbatim>\<open>'D'\<close>, or \<^verbatim>\<open>null\<close> for unknown\<close>

text \<open>
  A record of the lightweight log, \<^verbatim>\<open>{ hash, parents, date, message }\<close>; its date is the
  text that git printed.
\<close>

record lightweight_commit =
  lw_hash :: jsstring
  parents :: "jsstring list"
  lw_date :: jsstring
  lw_message :: jsstring

text \<open>
  The object \<^verbatim>\<open>{ all, latest, total }\<close> both parsers return; \<open>all_commits\<close> is its field
  \<^verbatim>\<open>all\<close> and \<open>total_count\<close> its field \<^verbatim>\<open>total\<close>.
\<close>

record 'a history =
  all_commits :: "'a list"
  latest :: "'a option"
  total_count :: nat

text \<open>
  The argument of \<^verbatim>\<open>gitLog\<close>: an object with an optional integer \<^verbatim>\<open>maxCount\<close> and an
  optional string \<^verbatim>\<open>file\<close> (the default is the empty object), or an integer.
\<close>

datatype log_options = OptObject "int option" "jsstring option" | OptNumber int

text \<open>\<^verbatim>\<open>parts[i] ? parts[i].trim() : ''\<close>\<close>

definition field :: "jsstring list \<Rightarrow> nat \<Rightarrow> jsstring" where
  "field parts i = (if i < length parts \<and> parts ! i \<noteq> [] then trim (parts ! i) else [])"

text \<open>\<^verbatim>\<open>/^[AMD]\s+/.test(line)\<close>\<close>

definition status_line :: "jsstring \<Rightarrow> bool" where
  "status_line line =
     (case line of
        c # d # _ \<Rightarrow> (c = 0x41 \<or> c = 0x4D \<or> c = 0x44) \<and> isWhiteSpace d
      | _ \<Rightarrow> False)"

text \<open>The body of the \<^verbatim>\<open>map\<close> callback of \<^verbatim>\<open>gitLog\<close>, for one fragment of the output.\<close>

definition parseCommit :: "jsstring option \<Rightarrow> jsstring \<Rightarrow> js_error + commit" where
  "parseCommit file rawCommit =
     (let parts = split DELIMITER rawCommit;
          timestamp = field parts 4;
          bodyAndStatus = (if 6 < length parts \<and> parts ! 6 \<noteq> [] then parts ! 6 else []);
          lines = split [0x0A] (trim bodyAndStatus);
          lastLine = (if lines = [] then [] else last lines);
          found = (truthy file \<and> lastLine \<noteq> [] \<and> status_line lastLine)
      in case date_of_timestamp timestamp of
           Inl e \<Rightarrow> Inl e
         | Inr d \<Rightarrow>
             Inr \<lparr>hash = field parts 0,
                  short = field parts 1,
                  authorName = field parts 2,
                  authorEmail = field parts 3,
                  date = d,
                  message = field parts 5,
                  body = trim (if found then trim (join [0x0A] (butlast lines)) else bodyAndStatus),
                  status = (if found then Some [hd lastLine] else None)\<rparr>)"

text \<open>
  The trailing blob of a fragment, \<^verbatim>\<open>parts[6] || ''\<close>: the body and, with a file filter,
  the status line.
\<close>

definition trailing_blob :: "jsstring \<Rightarrow> jsstring" where
  "trailing_blob rawCommit =
     (let parts = split DELIMITER rawCommit
      in if 6 < length parts \<and> parts ! 6 \<noteq> [] then parts ! 6 else [])"

text \<open>\<^verbatim>\<open>xs.map(f)\<close> where \<open>f\<close> may throw: the first exception ends the call.\<close>

fun map_throwing :: "('a \<Rightarrow> 'e + 'b) \<Rightarrow> 'a list \<Rightarrow> 'e + 'b list" where
  "map_throwing f [] = Inr []"
| "map_throwing f (x # xs) =
     (case f x of
        Inl e \<Rightarrow> Inl e
      | Inr y \<Rightarrow> (case map_throwing f xs of Inl e \<Rightarrow> Inl e | Inr ys \<Rightarrow> Inr (y # ys)))"

text \<open>\<^verbatim>\<open>{ all: commits, latest: commits[0] || null, total: commits.length }\<close>\<close>

definition history_of :: "'a list \<Rightarrow> 'a history" where
  "history_of commits =
     \<lparr>all_commits = commits,
      latest = (case commits of [] \<Rightarrow> None | c # _ \<Rightarrow> Some c),
      total_count = length commits\<rparr>"

definition log_maxCount :: "log_options \<Rightarrow> int" where
  "log_maxCount options =
     (case options of
        OptObject (Some n) _ \<Rightarrow> if n \<noteq> 0 then n else 500
      | OptObject None _ \<Rightarrow> 500
      | OptNumber n \<Rightarrow> n)"

definition log_file :: "log_options \<Rightarrow> jsstring option" where
  "log_file options =
     (case options of
        OptObject _ f \<Rightarrow> if truthy f then f else None
      | OptNumber _ \<Rightarrow> None)"

definition log_args :: "int \<Rightarrow> jsstring option \<Rightarrow> jsstring list" where
  "log_args maxCount file =
     [js ''log'',
      js ''--max-count='' @ number_text maxCount,
      js ''--date=iso'',
      js ''--pretty=format:'' @ COMMIT_DELIMITER @ js ''%H'' @ DELIMITER @ js ''%h'' @ DELIMITER @
        js ''%an'' @ DELIMITER @ js ''%ae'' @ DELIMITER @ js ''%at'' @ DELIMITER @ js ''%s'' @
        DELIMITER @ js ''%b'']
     @ (case file of Some f \<Rightarrow> if f \<noteq> [] then [js ''--name-status'', js ''--'', f] else [] | None \<Rightarrow> [])"

text \<open>
  What \<^verbatim>\<open>gitLog\<close> does with the output of the command: the early return on blank output,
  the split into fragments, the parse of each.
\<close>

definition parse_log :: "jsstring option \<Rightarrow> jsstring \<Rightarrow> js_error + commit history" where
  "parse_log file stdout =
     (if trim stdout = [] then Inr \<lparr>all_commits = [], latest = None, total_count = 0\<rparr>
      else
        let rawCommits = filter (\<lambda>c. trim c \<noteq> []) (split COMMIT_DELIMITER stdout)
        in case map_throwing (parseCommit file) rawCommits of
             Inl e \<Rightarrow> Inl e
           | Inr commits \<Rightarrow> Inr (history_of commits))"

definition gitLog :: "world \<Rightarrow> log_options \<Rightarrow> js_error + commit history" where
  "gitLog w options =
     (let maxCount = log_maxCount options;
          file = log_file options
      in case gitExec w (log_args maxCount file) of
           Inl e \<Rightarrow> Inl e
         | Inr stdout \<Rightarrow> parse_log file stdout)"

text \<open>The \<^verbatim>\<open>map\<close> callback of \<^verbatim>\<open>getLightweightGitLog\<close>.\<close>

definition parseLightweight :: "jsstring \<Rightarrow> lightweight_commit" where
  "parseLightweight rawCommit =
     (let parts = split DELIMITER rawCommit
      in \<lparr>lw_hash = field parts 0,
          parents = (if 1 < length parts \<and> parts ! 1 \<noteq> []
                     then split [0x20] (trim (parts ! 1)) else []),
          lw_date = field parts 2,
          lw_message = field parts 3\<rparr>)"

definition lightweight_args :: "jsstring list" where
  "lightweight_args =
     [js ''log'',
      js ''--pretty=format:%H'' @ DELIMITER @ js ''%P'' @ DELIMITER @ js ''%aI'' @ DELIMITER @
        js ''%s'' @ COMMIT_DELIMITER,
      js ''--date-order'']"

definition parse_lightweight_log :: "jsstring \<Rightarrow> lightweight_commit history" where
  "parse_lightweight_log stdout =
     (if trim stdout = [] then \<lparr>all_commits = [], latest = None, total_count = 0\<rparr>
      else history_of
             (map parseLightweight (filter (\<lambda>c. trim c \<noteq> []) (split COMMIT_DELIMITER stdout))))"

definition getLightweightGitLog :: "world \<Rightarrow> js_error + lightweight_commit history" where
  "getLightweightGitLog w =
     (case gitExec w lightweight_args of
        Inl e \<Rightarrow> Inl e
      | Inr stdout \<Rightarrow> Inr (parse_lightweight_log stdout))"

definition gitCheckIsRepo :: "world \<Rightarrow> js_error + bool" where
  "gitCheckIsRepo w =
     (case gitExec w [js ''rev-parse'', js ''--is-inside-work-tree''] of
        Inr _ \<Rightarrow> Inr True
      | Inl e \<Rightarrow> Inr False)"

section \<open>The safe restore\<close>

definition next_fault :: "world \<Rightarrow> fault option \<times> world" where
  "next_fault w =
     (case pending w of
        [] \<Rightarrow> (None, w)
      | f # fs \<Rightarrow> (f, w\<lparr>pending := fs\<rparr>))"

text \<open>\<^verbatim>\<open>fs.readFileSync(p, 'utf-8')\<close>\<close>

definition readFileSync :: "world \<Rightarrow> jsstring \<Rightarrow> js_error + jsstring" where
  "readFileSync w p =
     (case files w p of
        None \<Rightarrow> Inl (FsError (js ''ENOENT''))
      | Some c \<Rightarrow> Inr (utf8_decode c))"

definition existsSync :: "world \<Rightarrow> jsstring \<Rightarrow> bool" where
  "existsSync w p \<longleftrightarrow> p \<in> dirs w \<or> files w p \<noteq> None"

text \<open>
  A path and the directories above it: \<^verbatim>\<open>path.dirname\<close> is applied until it gives its
  argument back (the root, or \<^verbatim>\<open>.\<close>), at most \<open>n\<close> times.
\<close>

fun ancestors :: "(jsstring \<Rightarrow> jsstring) \<Rightarrow> nat \<Rightarrow> jsstring \<Rightarrow> jsstring list" where
  "ancestors dirname 0 p = [p]"
| "ancestors dirname (Suc n) p =
     (if dirname p = p then [p] else p # ancestors dirname n (dirname p))"

text \<open>
  \<^verbatim>\<open>fs.mkdirSync(dir, { recursive: true })\<close>: throws, or the directory and every directory
  above it exist afterwards (\<^verbatim>\<open>path.dirname\<close> reaches the top within as many steps as the
  path has code units).
\<close>

definition mkdirSync :: "world \<Rightarrow> jsstring \<Rightarrow> js_error option \<times> world" where
  "mkdirSync w dir =
     (case next_fault w of
        (Some (Fault e _), w') \<Rightarrow> (Some e, w')
      | (None, w') \<Rightarrow>
          (None, w'\<lparr>dirs := dirs w' \<union> set (ancestors (path_dirname w') (length dir) dir)\<rparr>))"

text \<open>\<^verbatim>\<open>fs.writeFileSync(p, content, 'utf-8')\<close>\<close>

definition writeFileSync :: "world \<Rightarrow> jsstring \<Rightarrow> jsstring \<Rightarrow> js_error option \<times> world" where
  "writeFileSync w p content =
     (case next_fault w of
        (Some (Fault e Untouched), w') \<Rightarrow> (Some e, w')
      | (Some (Fault e (Partial c)), w') \<Rightarrow> (Some e, w'\<lparr>files := (files w')(p \<mapsto> c)\<rparr>)
      | (None, w') \<Rightarrow> (None, w'\<lparr>files := (files w')(p \<mapsto> utf8_encode content)\<rparr>))"

definition console_error :: "world \<Rightarrow> log_line \<Rightarrow> world" where
  "console_error w l = w\<lparr>console := console w @ [l]\<rparr>"

text \<open>The second \<^verbatim>\<open>try\<close> block of \<^verbatim>\<open>gitCheckoutSafe\<close>: fetch, make the directory, write.\<close>

definition primary_restore ::
  "world \<Rightarrow> jsstring \<Rightarrow> jsstring \<Rightarrow> jsstring \<Rightarrow> js_error option \<times> world" where
  "primary_restore w fullPath commitHash filePath =
     (case gitExec w [js ''show'', commitHash @ js '':'' @ filePath] of
        Inl e \<Rightarrow> (Some e, w)
      | Inr newContent \<Rightarrow>
          (let dir = path_dirname w fullPath
           in (case (if \<not> existsSync w dir then mkdirSync w dir else (None, w)) of
                 (Some e, w1) \<Rightarrow> (Some e, w1)
               | (None, w1) \<Rightarrow> writeFileSync w1 fullPath newContent)))"

text \<open>Its \<^verbatim>\<open>catch\<close> block, up to the final \<^verbatim>\<open>throw error\<close>.\<close>

definition rollback ::
  "world \<Rightarrow> jsstring \<Rightarrow> jsstring \<Rightarrow> jsstring option \<Rightarrow> js_error \<Rightarrow> world" where
  "rollback w fullPath filePath backupContent error =
     (let w1 = console_error w (LogRestoreFailed filePath error)
      in case backupContent of
           None \<Rightarrow> w1
         | Some b \<Rightarrow>
             (case writeFileSync w1 fullPath b of
                (None, w2) \<Rightarrow> console_error w2 (LogRestoredBackup filePath)
              | (Some restoreError, w2) \<Rightarrow> console_error w2 (LogCritical restoreError)))"

text \<open>
  \<^verbatim>\<open>gitCheckoutSafe(commitHash, filePath)\<close>: the error thrown, if any, and the world
  afterwards.
\<close>

definition gitCheckoutSafe :: "world \<Rightarrow> jsstring \<Rightarrow> jsstring \<Rightarrow> js_error option \<times> world" where
  "gitCheckoutSafe w commitHash filePath =
     (case CONFIG_PATH w of
        None \<Rightarrow> (Some PathArgTypeError, w)
      | Some root \<Rightarrow>
          (let fullPath = path_join w root filePath;
               backupContent = (case readFileSync w fullPath of Inl e \<Rightarrow> None | Inr c \<Rightarrow> Some c)
           in (case primary_restore w fullPath commitHash filePath of
                 (None, w1) \<Rightarrow> (None, w1)
               | (Some error, w1) \<Rightarrow>
                   (Some error, rollback w1 fullPath filePath backupContent error))))"

text \<open>The next \<open>n\<close> calls that change the file system succeed.\<close>

definition calls_succeed :: "world \<Rightarrow> nat \<Rightarrow> bool" where
  "calls_succeed w n = list_all (\<lambda>f. f = None) (take n (pending w))"

text \<open>The lines written to \<^verbatim>\<open>console.error\<close> between the world \<open>w\<close> and the later \<open>w'\<close>.\<close>

definition new_lines :: "world \<Rightarrow> world \<Rightarrow> log_line list" where
  "new_lines w w' = drop (length (console w)) (console w')"

definition is_critical :: "log_line \<Rightarrow> bool" where
  "is_critical l = (case l of LogCritical _ \<Rightarrow> True | _ \<Rightarrow> False)"

section \<open>Well-formed output\<close>

text \<open>
  A record of the full log as the command writes it: the record separator, then seven
  fields with the field separator between them (hash, short hash, author name, author
  email, author timestamp, subject, and the trailing blob: the body, the status line if
  any, the newlines up to the next record). It is well formed when no field holds a code
  unit of the sentinels and the timestamp reads as a number of seconds that a Date can
  hold.
\<close>

definition sentinel_free :: "jsstring \<Rightarrow> bool" where
  "sentinel_free f \<longleftrightarrow> 0xA7 \<notin> set f \<and> 0xB1 \<notin> set f"

definition timestamp_ok :: "jsstring \<Rightarrow> bool" where
  "timestamp_ok t =
     (case parseInt (trim t) of
        None \<Rightarrow> False
      | Some n \<Rightarrow> \<bar>n * 1000\<bar> \<le> 8640000000000000)"

text \<open>A decimal digit, of which git writes the timestamp \<^verbatim>\<open>%at\<close>.\<close>

definition is_decimal :: "16 word \<Rightarrow> bool" where
  "is_decimal c \<longleftrightarrow> 0x30 \<le> c \<and> c \<le> 0x39"

definition wellformed_record :: "jsstring list \<Rightarrow> bool" where
  "wellformed_record fs \<longleftrightarrow> length fs = 7 \<and> list_all sentinel_free fs \<and> timestamp_ok (fs ! 4)"

definition render_record :: "jsstring list \<Rightarrow> jsstring" where
  "render_record fs = COMMIT_DELIMITER @ join DELIMITER fs"

definition render_log :: "jsstring list list \<Rightarrow> jsstring" where
  "render_log recs = concat (map render_record recs)"

section \<open>Example inputs\<close>

text \<open>\<^verbatim>\<open>path.dirname\<close> on a path with no slash at its end.\<close>

definition dirname_of :: "jsstring \<Rightarrow> jsstring" where
  "dirname_of p =
     (let r = dropWhile (\<lambda>c. c \<noteq> 0x2F) (rev p);
          r' = dropWhile (\<lambda>c. c = 0x2F) r
      in if r = [] then js ''.'' else if r' = [] then js ''/'' else rev r')"

text \<open>
  A world with the managed root \<^verbatim>\<open>/config\<close>, an empty root directory, no pending fault
  and a git that prints the text that \<open>run\<close> gives, in UTF-8.
\<close>

definition example_world :: "(jsstring list \<Rightarrow> js_error + jsstring) \<Rightarrow> world" where
  "example_world run =
     \<lparr>CONFIG_PATH = Some (js ''/config''),
      git = (\<lambda>cwd args. case run args of Inl e \<Rightarrow> Inl e | Inr s \<Rightarrow> Inr (utf8_encode s)),
      path_join = (\<lambda>a b. a @ js ''/'' @ b),
      path_dirname = dirname_of,
      files = Map.empty,
      dirs = {js ''/'', js ''/config''},
      pending = [],
      console = []\<rparr>"

text \<open>The same world before \<^verbatim>\<open>global.CONFIG_PATH\<close> is set.\<close>

definition unconfigured_world :: world where
  "unconfigured_world = (example_world (\<lambda>args. Inr (js ''true'')))\<lparr>CONFIG_PATH := None\<rparr>"

text \<open>
  One record of the full log, with the status line that \<^verbatim>\<open>--name-status\<close> appends, and
  what \<^verbatim>\<open>gitLog\<close> makes of it with and without the file filter.
\<close>

definition example_fields :: "jsstring list" where
  "example_fields =
     [js ''abc123def'', js ''abc123d'', js ''Ann'', js ''ann@example.org'', js ''1700000000'',
      js ''Fix lights'',
      js ''Tune the scene\<newline>\<newline>M'' @ [0x09] @ js ''notes.txt\<newline>'']"

definition example_commit :: commit where
  "example_commit =
     \<lparr>hash = js ''abc123def'', short = js ''abc123d'', authorName = js ''Ann'',
      authorEmail = js ''ann@example.org'', date = js ''2023-11-14T22:13:20.000Z'',
      message = js ''Fix lights'', body = js ''Tune the scene'', status = Some (js ''M'')\<rparr>"

definition example_commit_unfiltered :: commit where
  "example_commit_unfiltered =
     example_commit\<lparr>body := js ''Tune the scene\<newline>\<newline>M'' @ [0x09] @ js ''notes.txt'',
                    status := None\<rparr>"

definition example_fields_2 :: "jsstring list" where
  "example_fields_2 =
     [js ''0042beef1'', js ''0042bee'', js ''Bob'', js ''bob@example.org'', js ''1699990000'',
      js ''Add notes'', js ''\<newline>A'' @ [0x09] @ js ''notes.txt'']"

definition example_commit_2 :: commit where
  "example_commit_2 =
     \<lparr>hash = js ''0042beef1'', short = js ''0042bee'', authorName = js ''Bob'',
      authorEmail = js ''bob@example.org'', date = js ''2023-11-14T19:26:40.000Z'',
      message = js ''Add notes'', body = [], status = Some (js ''A'')\<rparr>"

text \<open>A record whose body ends with a line made of the letter M and a space.\<close>

definition trailing_space_fields :: "jsstring list" where
  "trailing_space_fields =
     [js ''77aa01'', js ''77aa'', js ''Ann'', js ''ann@example.org'', js ''1700000000'',
      js ''Merge'', js ''note\<newline>M '']"

definition trailing_space_commit :: commit where
  "trailing_space_commit =
     \<lparr>hash = js ''77aa01'', short = js ''77aa'', authorName = js ''Ann'',
      authorEmail = js ''ann@example.org'', date = js ''2023-11-14T22:13:20.000Z'',
      message = js ''Merge'', body = js ''note\<newline>M'', status = None\<rparr>"

text \<open>
  The output for one commit whose subject is \<^verbatim>\<open>Use \<plusminus>\<plusminus>\<plusminus>\<plusminus> marks\<close> and whose body is empty: the
  subject holds the record separator.
\<close>

definition separator_in_subject :: jsstring where
  "separator_in_subject =
     COMMIT_DELIMITER @
     join DELIMITER
       [js ''abc123def'', js ''abc123d'', js ''Ann'', js ''ann@example.org'', js ''1700000000'',
        js ''Use '' @ COMMIT_DELIMITER @ js '' marks'', []]"

text \<open>
  Worlds for the restore of \<^verbatim>\<open>a.yaml\<close>: the file holds \<open>content\<close> and the revision is
  unknown to git; or the file holds \<^verbatim>\<open>A\<close> and git gives \<^verbatim>\<open>B\<close>; or the file holds \<^verbatim>\<open>A\<close> and
  git prints the bytes \<open>blob\<close>. \<open>faults\<close> is what happens to the writes.
\<close>

definition bad_revision_world :: "bytes \<Rightarrow> fault option list \<Rightarrow> world" where
  "bad_revision_world content faults =
     (example_world (\<lambda>args. Inl (GitError (js ''fatal: invalid object name''))))
       \<lparr>files := [js ''/config/a.yaml'' \<mapsto> content], pending := faults\<rparr>"

definition good_revision_world :: "fault option list \<Rightarrow> world" where
  "good_revision_world faults =
     (example_world (\<lambda>args. Inr (js ''B'')))
       \<lparr>files := [js ''/config/a.yaml'' \<mapsto> ascii ''A''], pending := faults\<rparr>"

definition blob_world :: "bytes \<Rightarrow> world" where
  "blob_world blob =
     (example_world (\<lambda>args. Inr []))
       \<lparr>git := (\<lambda>cwd args. Inr blob), files := [js ''/config/a.yaml'' \<mapsto> ascii ''A'']\<rparr>"

definition disk_full :: fault where
  "disk_full = Fault (FsError (js ''ENOSPC'')) (Partial [])"

section \<open>Splitting, joining and mapping\<close>

lemma trim_Nil: "trim [] = []"
  by (simp add: trim_def)

lemma not_prefix_hd: "sep \<noteq> [] \<Longrightarrow> hd sep \<notin> set a \<Longrightarrow> a \<noteq> [] \<Longrightarrow> \<not> prefix sep (a @ r)"
  by (cases sep; cases a) auto

lemma split_ne_no_sep: "sep \<noteq> [] \<Longrightarrow> hd sep \<notin> set a \<Longrightarrow> split_ne sep a = [a]"
proof (induction a)
  case Nil
  then show ?case by simp
next
  case (Cons x a)
  then have "\<not> prefix sep (x # a)"
    using not_prefix_hd [of sep "x # a" "[]"] by simp
  with Cons show ?case by simp
qed

lemma split_ne_sep: "sep \<noteq> [] \<Longrightarrow> split_ne sep (sep @ r) = [] # split_ne sep r"
  by (cases sep) auto

lemma split_ne_append:
  "sep \<noteq> [] \<Longrightarrow> hd sep \<notin> set a \<Longrightarrow> split_ne sep (a @ sep @ r) = a # split_ne sep r"
proof (induction a)
  case Nil
  then show ?case by (simp add: split_ne_sep)
next
  case (Cons x a)
  then have "\<not> prefix sep ((x # a) @ sep @ r)"
    by (intro not_prefix_hd) auto
  with Cons show ?case by simp
qed

lemma split_ne_join:
  "sep \<noteq> [] \<Longrightarrow> xs \<noteq> [] \<Longrightarrow> \<forall>x\<in>set xs. hd sep \<notin> set x \<Longrightarrow> split_ne sep (join sep xs) = xs"
proof (induction sep xs rule: join.induct)
  case (1 sep)
  then show ?case by simp
next
  case (2 sep x)
  then show ?case by (simp add: split_ne_no_sep)
next
  case (3 sep x y ys)
  then show ?case by (simp add: split_ne_append)
qed

lemma split_join:
  "sep \<noteq> [] \<Longrightarrow> xs \<noteq> [] \<Longrightarrow> \<forall>x\<in>set xs. hd sep \<notin> set x \<Longrightarrow> split sep (join sep xs) = xs"
  by (simp add: split_def split_ne_join)

lemma set_join: "set (join sep xs) \<subseteq> set sep \<union> \<Union> (set ` set xs)"
  by (induction sep xs rule: join.induct) auto

lemma map_throwing_Inr:
  "map_throwing f xs = Inr ys \<Longrightarrow>
     length ys = length xs \<and> (\<forall>i<length xs. f (xs ! i) = Inr (ys ! i))"
proof (induction xs arbitrary: ys)
  case Nil
  then show ?case by simp
next
  case (Cons x xs)
  then show ?case
    by (auto split: sum.splits simp: nth_Cons')
qed

section \<open>Blank output\<close>

text \<open>
  Claim C6. When the output of the command is empty or only white space, \<^verbatim>\<open>gitLog\<close> and
  \<^verbatim>\<open>getLightweightGitLog\<close> both return, with no exception, the result
  \<^verbatim>\<open>{ all: [], latest: null, total: 0 }\<close>.
\<close>

theorem empty_output_empty_history:
  assumes "trim stdout = []"
  shows "(gitExec w (log_args (log_maxCount options) (log_file options)) = Inr stdout \<longrightarrow>
            gitLog w options = Inr \<lparr>all_commits = [], latest = None, total_count = 0\<rparr>) \<and>
         (gitExec w lightweight_args = Inr stdout \<longrightarrow>
            getLightweightGitLog w = Inr \<lparr>all_commits = [], latest = None, total_count = 0\<rparr>)"
  using assms
  by (simp add: gitLog_def parse_log_def getLightweightGitLog_def parse_lightweight_log_def)

theorem empty_output_empty_history_witness:
  "trim (js '' \<newline>'') = [] \<and>
   gitLog (example_world (\<lambda>args. Inr (js '' \<newline>''))) (OptObject None None)
     = Inr \<lparr>all_commits = [], latest = None, total_count = 0\<rparr> \<and>
   getLightweightGitLog (example_world (\<lambda>args. Inr (js '' \<newline>'')))
     = Inr \<lparr>all_commits = [], latest = None, total_count = 0\<rparr>"
proof -
  have t: "trim (js '' \<newline>'') = []"
    by (simp add: trim_def js_def isWhiteSpace_def)
  have full: "gitExec (example_world (\<lambda>args. Inr (js '' \<newline>'')))
      (log_args (log_maxCount (OptObject None None)) (log_file (OptObject None None)))
      = Inr (js '' \<newline>'')"
    by code_simp
  have light: "gitExec (example_world (\<lambda>args. Inr (js '' \<newline>''))) lightweight_args
      = Inr (js '' \<newline>'')"
    by code_simp
  show ?thesis
    using t full light empty_output_empty_history [OF t,
        of "example_world (\<lambda>args. Inr (js '' \<newline>''))" "OptObject None None"]
    by (simp only: simp_thms)
qed

section \<open>The repository check\<close>

text \<open>
  Claim C10. \<^verbatim>\<open>gitCheckIsRepo\<close> never throws: it returns \<^verbatim>\<open>true\<close> exactly when the
  \<^verbatim>\<open>rev-parse\<close> command succeeds and \<^verbatim>\<open>false\<close> exactly when it fails, whatever the failure;
  in particular it returns \<^verbatim>\<open>false\<close> when the managed root has not been configured.
\<close>

theorem gitCheckIsRepo_total:
  "(\<exists>b. gitCheckIsRepo w = Inr b) \<and>
   (gitCheckIsRepo w = Inr True \<longleftrightarrow>
      (\<exists>out. gitExec w [js ''rev-parse'', js ''--is-inside-work-tree''] = Inr out)) \<and>
   (gitCheckIsRepo w = Inr False \<longleftrightarrow>
      (\<exists>e. gitExec w [js ''rev-parse'', js ''--is-inside-work-tree''] = Inl e)) \<and>
   (\<not> truthy (CONFIG_PATH w) \<longrightarrow> gitCheckIsRepo w = Inr False)"
  by (auto simp: gitCheckIsRepo_def gitExec_def truthy_def split: sum.splits option.splits)

theorem gitCheckIsRepo_total_witness:
  "\<not> truthy (CONFIG_PATH unconfigured_world) \<and> gitCheckIsRepo unconfigured_world = Inr False"
  using gitCheckIsRepo_total [of unconfigured_world]
  by (simp add: unconfigured_world_def example_world_def truthy_def)

section \<open>Malformed output\<close>

text \<open>
  Claim C3 says that \<^verbatim>\<open>gitLog\<close> returns a result for every output text, a fragment with
  fewer than seven fields giving a record whose missing fields are empty. The code does
  default a missing field to the empty string, but then renders the date with
  \<^verbatim>\<open>new Date(parseInt(timestamp) * 1000).toISOString()\<close>, which throws a \<^verbatim>\<open>RangeError\<close> when
  the timestamp does not read as a number. So \<^verbatim>\<open>gitLog\<close> throws on a fragment that has
  fewer than five fields: on the output \<^verbatim>\<open>\<plusminus>\<plusminus>\<plusminus>\<plusminus>abc123\<close>, a record with only its hash, and
  on the output for a commit whose subject holds the record separator, which the split
  cuts into two fragments.
\<close>

theorem short_fragment_raises:
  "gitLog (example_world (\<lambda>args. Inr (COMMIT_DELIMITER @ js ''abc123''))) (OptObject None None)
     = Inl InvalidTimeValue \<and>
   split COMMIT_DELIMITER separator_in_subject
     = [[],
        join DELIMITER [js ''abc123def'', js ''abc123d'', js ''Ann'', js ''ann@example.org'',
          js ''1700000000'', js ''Use ''],
        join DELIMITER [js '' marks'', []]] \<and>
   gitLog (example_world (\<lambda>args. Inr separator_in_subject)) (OptObject None None)
     = Inl InvalidTimeValue"
  by code_simp

section \<open>Restoring a file\<close>

lemma ancestors_self: "p \<in> set (ancestors dirname n p)"
  by (cases n) auto

lemma writeFileSync_ok:
  "calls_succeed w (Suc n) \<Longrightarrow>
     fst (writeFileSync w p c) = None \<and>
     files (snd (writeFileSync w p c)) p = Some (utf8_encode c) \<and>
     dirs (snd (writeFileSync w p c)) = dirs w \<and>
     calls_succeed (snd (writeFileSync w p c)) n"
  by (cases "pending w") (auto simp: writeFileSync_def next_fault_def calls_succeed_def)

lemma existsSync_writeFileSync:
  "existsSync w q \<Longrightarrow> existsSync (snd (writeFileSync w p c)) q"
  by (cases "pending w")
    (auto simp: writeFileSync_def next_fault_def existsSync_def
      split: option.splits fault.splits damage.splits)

lemma mkdirSync_ok:
  "calls_succeed w (Suc n) \<Longrightarrow>
     fst (mkdirSync w d) = None \<and>
     set (ancestors (path_dirname w) (length d) d) \<subseteq> dirs (snd (mkdirSync w d)) \<and>
     calls_succeed (snd (mkdirSync w d)) n"
  by (cases "pending w") (auto simp: mkdirSync_def next_fault_def calls_succeed_def)

lemma primary_restore_ok:
  assumes fetch: "gitExec w [js ''show'', commitHash @ js '':'' @ filePath] = Inr newContent"
    and ok: "calls_succeed w (if existsSync w (path_dirname w fullPath) then 1 else 2)"
  shows "fst (primary_restore w fullPath commitHash filePath) = None \<and>
         files (snd (primary_restore w fullPath commitHash filePath)) fullPath
           = Some (utf8_encode newContent) \<and>
         existsSync (snd (primary_restore w fullPath commitHash filePath)) (path_dirname w fullPath)"
proof (cases "existsSync w (path_dirname w fullPath)")
  case True
  with ok have "calls_succeed w (Suc 0)" by simp
  from writeFileSync_ok [OF this, of fullPath newContent] True fetch
    existsSync_writeFileSync [OF True, of fullPath newContent]
  show ?thesis
    by (simp add: primary_restore_def split: prod.splits option.splits)
next
  case False
  with ok have "calls_succeed w (Suc (Suc 0))" by (simp add: numeral_2_eq_2)
  from mkdirSync_ok [OF this, of "path_dirname w fullPath"]
    ancestors_self [of "path_dirname w fullPath" "path_dirname w"]
  obtain w1 where mk: "mkdirSync w (path_dirname w fullPath) = (None, w1)"
    and d: "path_dirname w fullPath \<in> dirs w1" and ok1: "calls_succeed w1 (Suc 0)"
    by (cases "mkdirSync w (path_dirname w fullPath)") auto
  from d have "existsSync w1 (path_dirname w fullPath)"
    by (simp add: existsSync_def)
  from writeFileSync_ok [OF ok1, of fullPath newContent] False fetch mk
    existsSync_writeFileSync [OF this, of fullPath newContent]
  show ?thesis
    by (simp add: primary_restore_def split: prod.splits option.splits)
qed

text \<open>
  What a restore whose fetch and writes succeed leaves in the file: the bytes that git
  printed, decoded as UTF-8 and encoded again.
\<close>

lemma restore_writes_reencoded_output:
  assumes cfg: "CONFIG_PATH w = Some root" and root: "root \<noteq> []"
    and fetch: "git w root [js ''show'', commitHash @ js '':'' @ filePath] = Inr blob"
    and ok: "calls_succeed w
               (if existsSync w (path_dirname w (path_join w root filePath)) then 1 else 2)"
  shows "fst (gitCheckoutSafe w commitHash filePath) = None \<and>
         files (snd (gitCheckoutSafe w commitHash filePath)) (path_join w root filePath)
           = Some (utf8_encode (utf8_decode blob)) \<and>
         existsSync (snd (gitCheckoutSafe w commitHash filePath))
           (path_dirname w (path_join w root filePath))"
proof -
  from cfg root fetch
  have "gitExec w [js ''show'', commitHash @ js '':'' @ filePath] = Inr (utf8_decode blob)"
    by (simp add: gitExec_def)
  from primary_restore_ok [OF this ok] cfg show ?thesis
    by (auto simp: gitCheckoutSafe_def Let_def split: prod.splits option.splits)
qed

text \<open>
  Claim C7 says that a restore whose fetch and write succeed returns with no error and
  leaves the fetched bytes in the target file. The code returns with no error, but the
  blob passes through a string: \<^verbatim>\<open>gitExec\<close> asks \<^verbatim>\<open>execFile\<close> for no \<^verbatim>\<open>encoding\<close>, so the output
  is decoded as UTF-8, and \<^verbatim>\<open>writeFileSync\<close> encodes the string again. A blob that is not
  well-formed UTF-8 does not come back: for the two bytes \<^verbatim>\<open>42 ff\<close> at the revision, the
  file holds the four bytes \<^verbatim>\<open>42 ef bf bd\<close> afterwards.
\<close>

theorem restore_reencodes_blob:
  "CONFIG_PATH (blob_world [0x42, 0xFF]) = Some (js ''/config'') \<and>
   git (blob_world [0x42, 0xFF]) (js ''/config'') [js ''show'', js ''abc123'' @ js '':'' @ js ''a.yaml'']
     = Inr [0x42, 0xFF] \<and>
   calls_succeed (blob_world [0x42, 0xFF]) 1 \<and>
   fst (gitCheckoutSafe (blob_world [0x42, 0xFF]) (js ''abc123'') (js ''a.yaml'')) = None \<and>
   files (snd (gitCheckoutSafe (blob_world [0x42, 0xFF]) (js ''abc123'') (js ''a.yaml'')))
     (js ''/config/a.yaml'') = Some [0x42, 0xEF, 0xBF, 0xBD] \<and>
   console (snd (gitCheckoutSafe (blob_world [0x42, 0xFF]) (js ''abc123'') (js ''a.yaml''))) = []"
  by code_simp

text \<open>
  A restore into a directory that does not exist creates it and the missing directories
  above it.
\<close>

lemma restore_creates_directories:
  "\<not> existsSync (example_world (\<lambda>args. Inr (js ''C''))) (js ''/config/scenes'') \<and>
   fst (gitCheckoutSafe (example_world (\<lambda>args. Inr (js ''C''))) (js ''HEAD~1'')
     (js ''scenes/hall/a.yaml'')) = None \<and>
   files (snd (gitCheckoutSafe (example_world (\<lambda>args. Inr (js ''C''))) (js ''HEAD~1'')
     (js ''scenes/hall/a.yaml''))) (js ''/config/scenes/hall/a.yaml'') = Some (ascii ''C'') \<and>
   dirs (snd (gitCheckoutSafe (example_world (\<lambda>args. Inr (js ''C''))) (js ''HEAD~1'')
     (js ''scenes/hall/a.yaml'')))
     = {js ''/'', js ''/config'', js ''/config/scenes'', js ''/config/scenes/hall''}"
  by code_simp

lemma console_writeFileSync: "console (snd (writeFileSync w p c)) = console w"
  by (cases "pending w")
    (auto simp: writeFileSync_def next_fault_def split: option.splits fault.splits damage.splits)

lemma console_mkdirSync: "console (snd (mkdirSync w d)) = console w"
  by (cases "pending w")
    (auto simp: mkdirSync_def next_fault_def split: option.splits fault.splits)

lemma console_primary_restore:
  "console (snd (primary_restore w fullPath commitHash filePath)) = console w"
proof (cases "gitExec w [js ''show'', commitHash @ js '':'' @ filePath]")
  case (Inl e)
  then show ?thesis by (simp add: primary_restore_def)
next
  case (Inr newContent)
  show ?thesis
  proof (cases "existsSync w (path_dirname w fullPath)")
    case True
    with Inr show ?thesis
      by (simp add: primary_restore_def console_writeFileSync)
  next
    case False
    obtain r w1 where mk: "mkdirSync w (path_dirname w fullPath) = (r, w1)"
      by (cases "mkdirSync w (path_dirname w fullPath)")
    with console_mkdirSync [of w "path_dirname w fullPath"] have "console w1 = console w"
      by simp
    with Inr False mk show ?thesis
      by (cases r) (simp_all add: primary_restore_def console_writeFileSync)
  qed
qed

lemma writeFileSync_fails_iff: "fst (writeFileSync w p c) \<noteq> None \<longleftrightarrow> \<not> calls_succeed w 1"
  by (cases "pending w")
    (auto simp: writeFileSync_def next_fault_def calls_succeed_def
      split: option.splits fault.splits damage.splits)

lemma calls_succeed_console_error:
  "calls_succeed (console_error w l) n = calls_succeed w n"
  by (simp add: calls_succeed_def console_error_def)

lemma rollback_lines:
  "new_lines w (rollback w fullPath filePath backupContent error) =
     LogRestoreFailed filePath error #
     (case backupContent of
        None \<Rightarrow> []
      | Some b \<Rightarrow> if calls_succeed w 1 then [LogRestoredBackup filePath]
                  else [LogCritical (the (fst (writeFileSync (console_error w (LogRestoreFailed filePath error)) fullPath b)))])"
proof (cases backupContent)
  case None
  then show ?thesis by (simp add: rollback_def new_lines_def console_error_def)
next
  case (Some b)
  let ?w1 = "console_error w (LogRestoreFailed filePath error)"
  obtain r w2 where wr: "writeFileSync ?w1 fullPath b = (r, w2)"
    by (cases "writeFileSync ?w1 fullPath b")
  from console_writeFileSync [of ?w1 fullPath b] wr
  have c: "console w2 = console w @ [LogRestoreFailed filePath error]"
    by (simp add: console_error_def)
  from writeFileSync_fails_iff [of ?w1 fullPath b] wr
  have f: "r \<noteq> None \<longleftrightarrow> \<not> calls_succeed w 1"
    by (simp add: calls_succeed_console_error)
  from Some wr c f show ?thesis
    by (cases r) (auto simp: rollback_def new_lines_def console_error_def)
qed

text \<open>
  What a restore whose fetch fails leaves in a file that it could read: when the write of
  the backup succeeds, the bytes of the file decoded as UTF-8 and encoded again.
\<close>

lemma fetch_failure_rewrites_backup:
  assumes cfg: "CONFIG_PATH w = Some root"
    and before: "files w (path_join w root filePath) = Some a"
    and fetch: "gitExec w [js ''show'', commitHash @ js '':'' @ filePath] = Inl e"
  shows "fst (gitCheckoutSafe w commitHash filePath) = Some e \<and>
         (calls_succeed w 1 \<longrightarrow>
            files (snd (gitCheckoutSafe w commitHash filePath)) (path_join w root filePath)
              = Some (utf8_encode (utf8_decode a)))"
proof -
  let ?p = "path_join w root filePath"
  let ?w1 = "console_error w (LogRestoreFailed filePath e)"
  have pr: "primary_restore w ?p commitHash filePath = (Some e, w)"
    using fetch by (simp add: primary_restore_def)
  have "calls_succeed w 1 \<Longrightarrow>
      files (snd (writeFileSync ?w1 ?p (utf8_decode a))) ?p = Some (utf8_encode (utf8_decode a))"
    by (cases "pending w")
      (auto simp: writeFileSync_def next_fault_def calls_succeed_def console_error_def)
  with cfg before pr show ?thesis
    by (auto simp: gitCheckoutSafe_def Let_def readFileSync_def rollback_def console_error_def
        split: prod.splits option.splits)
qed

text \<open>
  Claim C1 says that a restore whose fetch fails leaves the content of an existing target
  file as it was and raises the error of the fetch. The code raises that error, but it
  also writes the file again, although the failed fetch has not touched it, and what it
  writes is the backup it read with \<^verbatim>\<open>readFileSync(fullPath, 'utf-8')\<close>: a string. A file
  that is not well-formed UTF-8 is changed by this write: the file held the two bytes
  \<^verbatim>\<open>41 ff\<close>, the revision is unknown, the write succeeds, and the file holds the four bytes
  \<^verbatim>\<open>41 ef bf bd\<close> afterwards, with the line about the restored backup on the console.
\<close>

theorem lossy_backup_changes_file:
  "files (bad_revision_world [0x41, 0xFF] []) (js ''/config/a.yaml'') = Some [0x41, 0xFF] \<and>
   gitExec (bad_revision_world [0x41, 0xFF] []) [js ''show'', js ''abc123'' @ js '':'' @ js ''a.yaml'']
     = Inl (GitError (js ''fatal: invalid object name'')) \<and>
   calls_succeed (bad_revision_world [0x41, 0xFF] []) 1 \<and>
   fst (gitCheckoutSafe (bad_revision_world [0x41, 0xFF] []) (js ''abc123'') (js ''a.yaml''))
     = Some (GitError (js ''fatal: invalid object name'')) \<and>
   files (snd (gitCheckoutSafe (bad_revision_world [0x41, 0xFF] []) (js ''abc123'') (js ''a.yaml'')))
     (js ''/config/a.yaml'') = Some [0x41, 0xEF, 0xBF, 0xBD] \<and>
   console (snd (gitCheckoutSafe (bad_revision_world [0x41, 0xFF] []) (js ''abc123'') (js ''a.yaml'')))
     = [LogRestoreFailed (js ''a.yaml'') (GitError (js ''fatal: invalid object name'')),
        LogRestoredBackup (js ''a.yaml'')]"
  by code_simp

text \<open>
  The same write can fail: the file held \<^verbatim>\<open>A\<close>, the revision is unknown, the disk is full
  when the backup is written, and the file is left empty.
\<close>

lemma fetch_failure_rollback_fails:
  "files (bad_revision_world (ascii ''A'') [Some disk_full]) (js ''/config/a.yaml'')
     = Some (ascii ''A'') \<and>
   gitExec (bad_revision_world (ascii ''A'') [Some disk_full])
     [js ''show'', js ''abc123'' @ js '':'' @ js ''a.yaml'']
     = Inl (GitError (js ''fatal: invalid object name'')) \<and>
   fst (gitCheckoutSafe (bad_revision_world (ascii ''A'') [Some disk_full]) (js ''abc123'')
     (js ''a.yaml'')) = Some (GitError (js ''fatal: invalid object name'')) \<and>
   files (snd (gitCheckoutSafe (bad_revision_world (ascii ''A'') [Some disk_full]) (js ''abc123'')
     (js ''a.yaml''))) (js ''/config/a.yaml'') = Some []"
  by code_simp

text \<open>
  Claim C2, as amended. The restore throws the error of its \<^verbatim>\<open>try\<close> block, the original
  fetch or write failure, whether the rollback succeeded, failed or was not attempted:
  there is no error of its own for the case where both fail. That case is marked on
  \<^verbatim>\<open>console.error\<close> only, by the CRITICAL line, which is written exactly when the restore
  failed, a backup had been read and the write of the backup failed.
\<close>

theorem restore_throws_primary_error:
  assumes cfg: "CONFIG_PATH w = Some root"
  shows "fst (gitCheckoutSafe w commitHash filePath)
           = fst (primary_restore w (path_join w root filePath) commitHash filePath) \<and>
         (list_ex is_critical (new_lines w (snd (gitCheckoutSafe w commitHash filePath))) \<longleftrightarrow>
            fst (primary_restore w (path_join w root filePath) commitHash filePath) \<noteq> None \<and>
            files w (path_join w root filePath) \<noteq> None \<and>
            \<not> calls_succeed
                (snd (primary_restore w (path_join w root filePath) commitHash filePath)) 1)"
proof -
  let ?p = "path_join w root filePath"
  obtain r w1 where pr: "primary_restore w ?p commitHash filePath = (r, w1)"
    by (cases "primary_restore w ?p commitHash filePath")
  from console_primary_restore [of w ?p commitHash filePath] pr
  have c: "console w1 = console w" by simp
  then have nl: "\<And>w'. new_lines w w' = new_lines w1 w'"
    by (simp add: new_lines_def)
  show ?thesis
  proof (cases r)
    case None
    with cfg pr c show ?thesis
      by (simp add: gitCheckoutSafe_def Let_def new_lines_def)
  next
    case (Some e)
    with cfg pr show ?thesis
      by (cases "files w ?p")
        (simp_all add: gitCheckoutSafe_def Let_def nl rollback_lines readFileSync_def
          is_critical_def)
  qed
qed

theorem restore_throws_primary_error_witness:
  "CONFIG_PATH (good_revision_world [Some disk_full, Some disk_full]) = Some (js ''/config'') \<and>
   fst (gitCheckoutSafe (good_revision_world [Some disk_full, Some disk_full]) (js ''abc123'')
     (js ''a.yaml'')) = Some (FsError (js ''ENOSPC'')) \<and>
   list_ex is_critical
     (new_lines (good_revision_world [Some disk_full, Some disk_full])
       (snd (gitCheckoutSafe (good_revision_world [Some disk_full, Some disk_full]) (js ''abc123'')
         (js ''a.yaml''))))"
proof -
  let ?w = "good_revision_world [Some disk_full, Some disk_full]"
  have cfg: "CONFIG_PATH ?w = Some (js ''/config'')"
    by (simp add: good_revision_world_def example_world_def)
  have p: "path_join ?w (js ''/config'') (js ''a.yaml'') = js ''/config/a.yaml''"
    by (simp add: good_revision_world_def example_world_def js_def)
  have pr: "fst (primary_restore ?w (js ''/config/a.yaml'') (js ''abc123'') (js ''a.yaml''))
      = Some (FsError (js ''ENOSPC''))"
    by code_simp
  have f: "files ?w (js ''/config/a.yaml'') \<noteq> None"
    by (simp add: good_revision_world_def)
  have nr: "\<not> calls_succeed
      (snd (primary_restore ?w (js ''/config/a.yaml'') (js ''abc123'') (js ''a.yaml''))) 1"
    by code_simp
  from restore_throws_primary_error [OF cfg, of "js ''abc123''" "js ''a.yaml''"] cfg pr f nr
  show ?thesis by (simp add: p)
qed

text \<open>
  Claim C2 as stated fails on the error raised: the write of \<^verbatim>\<open>B\<close> fails on a full disk; in one
  world the write of the backup fails too and the file is left empty, in the other it
  succeeds and the file holds \<^verbatim>\<open>A\<close> again. The caller gets the same error in both.
\<close>

theorem same_error_rolled_back_or_not:
  "fst (gitCheckoutSafe (good_revision_world [Some disk_full, Some disk_full]) (js ''abc123'') (js ''a.yaml''))
     = Some (FsError (js ''ENOSPC'')) \<and>
   fst (gitCheckoutSafe (good_revision_world [Some disk_full, None]) (js ''abc123'') (js ''a.yaml''))
     = Some (FsError (js ''ENOSPC'')) \<and>
   files (snd (gitCheckoutSafe (good_revision_world [Some disk_full, Some disk_full]) (js ''abc123'')
     (js ''a.yaml''))) (js ''/config/a.yaml'') = Some [] \<and>
   files (snd (gitCheckoutSafe (good_revision_world [Some disk_full, None]) (js ''abc123'')
     (js ''a.yaml''))) (js ''/config/a.yaml'') = Some (ascii ''A'')"
  by code_simp

section \<open>The status of a record\<close>

lemma status_line_hd: "status_line l \<Longrightarrow> [hd l] = js ''A'' \<or> [hd l] = js ''M'' \<or> [hd l] = js ''D''"
  by (auto simp: status_line_def js_def split: list.splits)

lemma parseCommit_status:
  assumes "parseCommit file raw = Inr r"
  shows "status r \<in> {None, Some (js ''A''), Some (js ''M''), Some (js ''D'')} \<and>
         (\<not> truthy file \<longrightarrow> status r = None)"
proof -
  let ?parts = "split DELIMITER raw"
  let ?blob = "if 6 < length ?parts \<and> ?parts ! 6 \<noteq> [] then ?parts ! 6 else []"
  let ?lines = "split [0x0A] (trim ?blob)"
  let ?last = "if ?lines = [] then [] else last ?lines"
  let ?found = "truthy file \<and> ?last \<noteq> [] \<and> status_line ?last"
  from assms have "status r = (if ?found then Some [hd ?last] else None)"
    by (auto simp: parseCommit_def Let_def split: sum.splits)
  then show ?thesis
    using status_line_hd [of ?last] by (cases ?found) auto
qed

lemma parse_log_members:
  assumes "parse_log file stdout = Inr h" and "r \<in> set (all_commits h)"
  shows "\<exists>raw. parseCommit file raw = Inr r"
proof (cases "trim stdout = []")
  case True
  with assms show ?thesis by (auto simp: parse_log_def)
next
  case False
  let ?raws = "filter (\<lambda>c. trim c \<noteq> []) (split COMMIT_DELIMITER stdout)"
  from False assms(1) obtain commits where
    m: "map_throwing (parseCommit file) ?raws = Inr commits" and h: "h = history_of commits"
    by (auto simp: parse_log_def Let_def split: sum.splits)
  from h assms(2) have "r \<in> set commits" by (simp add: history_of_def)
  then obtain i where "i < length commits" "commits ! i = r"
    by (auto simp: in_set_conv_nth)
  with map_throwing_Inr [OF m] show ?thesis by auto
qed

text \<open>
  Claim C9. Every record that \<^verbatim>\<open>gitLog\<close> returns has a status among \<^verbatim>\<open>'A'\<close> (added),
  \<^verbatim>\<open>'M'\<close> (modified), \<^verbatim>\<open>'D'\<close> (deleted) and \<^verbatim>\<open>null\<close> (unknown), and the status is \<^verbatim>\<open>null\<close>
  for every record when no file filter was requested, whatever the output text.
\<close>

theorem status_is_known_letter_or_null:
  assumes "gitLog w options = Inr h" and "r \<in> set (all_commits h)"
  shows "status r \<in> {None, Some (js ''A''), Some (js ''M''), Some (js ''D'')} \<and>
         (log_file options = None \<longrightarrow> status r = None)"
proof -
  from assms(1) obtain stdout where "parse_log (log_file options) stdout = Inr h"
    by (auto simp: gitLog_def Let_def split: sum.splits)
  from parse_log_members [OF this assms(2)] obtain raw
    where "parseCommit (log_file options) raw = Inr r" ..
  from parseCommit_status [OF this] show ?thesis
    by (auto simp: truthy_def)
qed


theorem status_is_known_letter_or_null_witness:
  "gitLog (example_world (\<lambda>args. Inr (render_log [example_fields])))
     (OptObject None (Some (js ''notes.txt''))) = Inr (history_of [example_commit]) \<and>
   example_commit \<in> set (all_commits (history_of [example_commit])) \<and>
   status example_commit = Some (js ''M'') \<and>
   gitLog (example_world (\<lambda>args. Inr (render_log [example_fields]))) (OptNumber 10)
     = Inr (history_of [example_commit_unfiltered]) \<and>
   example_commit_unfiltered \<in> set (all_commits (history_of [example_commit_unfiltered])) \<and>
   log_file (OptNumber 10) = None \<and>
   status example_commit_unfiltered = None"
proof -
  let ?w = "example_world (\<lambda>args. Inr (render_log [example_fields]))"
  have a: "gitLog ?w (OptObject None (Some (js ''notes.txt''))) = Inr (history_of [example_commit])"
    by code_simp
  have b: "example_commit \<in> set (all_commits (history_of [example_commit]))"
    by (simp add: history_of_def)
  have c: "gitLog ?w (OptNumber 10) = Inr (history_of [example_commit_unfiltered])"
    by code_simp
  have d: "example_commit_unfiltered \<in> set (all_commits (history_of [example_commit_unfiltered]))"
    by (simp add: history_of_def)
  have e: "log_file (OptNumber 10) = None"
    by (simp add: log_file_def)
  from status_is_known_letter_or_null [OF a b] status_is_known_letter_or_null [OF c d] a b c d e
  show ?thesis
    by (simp add: example_commit_def example_commit_unfiltered_def)
qed


section \<open>The parents of a record of the lightweight log\<close>

lemma join_eq_Nil: "join [c] hs = [] \<longleftrightarrow> hs = [] \<or> hs = [[]]"
  by (induction "[c]" hs rule: join.induct) auto

lemma DELIMITER_hd: "DELIMITER \<noteq> [] \<and> hd DELIMITER = 0xA7"
  by (simp add: DELIMITER_def)

lemma split_two_fields:
  assumes "0xA7 \<notin> set a" and "0xA7 \<notin> set b"
  shows "split DELIMITER (a @ DELIMITER @ b @ DELIMITER @ rest) = a # b # split_ne DELIMITER rest"
  using assms DELIMITER_hd by (simp add: split_def split_ne_append)

text \<open>
  Claim C8, as amended. \<^verbatim>\<open>getLightweightGitLog\<close> trims the parent field and splits it at
  each single space U+0020, keeping the order: a field made of pieces without a space,
  joined by one space each and with no white space at either end, gives exactly those
  pieces, so \<^verbatim>\<open>abc123 def456\<close> gives \<^verbatim>\<open>abc123\<close> then \<^verbatim>\<open>def456\<close>; an empty parent field gives no
  parent. (The claim says the field is split on white space; a tab is white space and does
  not separate two parents.)
\<close>

theorem parents_split_on_single_space:
  assumes h: "0xA7 \<notin> set h"
    and toks: "\<forall>x\<in>set hs. 0x20 \<notin> set x \<and> 0xA7 \<notin> set x"
    and ends: "trim (join [0x20] hs) = join [0x20] hs"
    and ne: "hs \<noteq> [[]]"
  shows "parents (parseLightweight (h @ DELIMITER @ join [0x20] hs @ DELIMITER @ rest)) = hs"
proof -
  let ?f = "join [0x20] hs"
  from toks have "0xA7 \<notin> set ?f"
    using set_join [of "[0x20]" hs] by auto
  from split_two_fields [OF h this]
  have parts: "split DELIMITER (h @ DELIMITER @ ?f @ DELIMITER @ rest)
      = h # ?f # split_ne DELIMITER rest" .
  show ?thesis
  proof (cases "?f = []")
    case True
    with ne have "hs = []" by (simp add: join_eq_Nil)
    with True parts show ?thesis by (simp add: parseLightweight_def Let_def)
  next
    case False
    then have "hs \<noteq> []" by auto
    with toks have "split [0x20] ?f = hs"
      by (intro split_join) auto
    with False parts ends show ?thesis
      by (simp add: parseLightweight_def Let_def)
  qed
qed

theorem parents_split_on_single_space_witness:
  "0xA7 \<notin> set (js ''h2'') \<and>
   0x20 \<notin> set (js ''abc123'') \<and> 0xA7 \<notin> set (js ''abc123'') \<and>
   0x20 \<notin> set (js ''def456'') \<and> 0xA7 \<notin> set (js ''def456'') \<and>
   trim (join [0x20] [js ''abc123'', js ''def456'']) = join [0x20] [js ''abc123'', js ''def456''] \<and>
   join [0x20] [js ''abc123'', js ''def456''] = js ''abc123 def456'' \<and>
   parents (parseLightweight (js ''h2'' @ DELIMITER @ js ''abc123 def456'' @ DELIMITER @
     js ''2024-05-01T10:00:00+02:00'' @ DELIMITER @ js ''Merge'')) = [js ''abc123'', js ''def456''] \<and>
   parents (parseLightweight (js ''h1'' @ DELIMITER @ [] @ DELIMITER @
     js ''2024-04-30T09:00:00+02:00'' @ DELIMITER @ js ''Root'')) = []"
proof -
  have h: "0xA7 \<notin> set (js ''h2'')" and h': "0xA7 \<notin> set (js ''h1'')"
    by (simp_all add: js_def)
  have toks: "\<forall>x\<in>set [js ''abc123'', js ''def456'']. 0x20 \<notin> set x \<and> 0xA7 \<notin> set x"
    by (simp add: js_def)
  have j: "join [0x20] [js ''abc123'', js ''def456''] = js ''abc123 def456''"
    by (simp add: js_def)
  have ends: "trim (join [0x20] [js ''abc123'', js ''def456''])
      = join [0x20] [js ''abc123'', js ''def456'']"
    by code_simp
  have ne: "[js ''abc123'', js ''def456''] \<noteq> [[]]"
    by simp
  have toks0: "\<forall>x\<in>set ([] :: jsstring list). 0x20 \<notin> set x \<and> 0xA7 \<notin> set x"
    by simp
  have ends0: "trim (join [0x20] []) = join [0x20] []"
    by (simp add: trim_Nil)
  from parents_split_on_single_space [OF h toks ends ne,
      of "js ''2024-05-01T10:00:00+02:00'' @ DELIMITER @ js ''Merge''"]
    parents_split_on_single_space [OF h' toks0 ends0,
      of "js ''2024-04-30T09:00:00+02:00'' @ DELIMITER @ js ''Root''"]
    h toks ends j
  show ?thesis by (simp add: js_def)
qed

text \<open>
  Claim C8 as stated fails on a parent field whose two hashes are separated by a tab: the record has
  one parent, the whole field.
\<close>

theorem tab_does_not_separate_parents:
  "isWhiteSpace 0x09 \<and>
   getLightweightGitLog (example_world (\<lambda>args. Inr (js ''h2'' @ DELIMITER @
       js ''abc123'' @ [0x09] @ js ''def456'' @ DELIMITER @ js ''2024-05-01T10:00:00+02:00'' @
       DELIMITER @ js ''Merge'' @ COMMIT_DELIMITER)))
     = Inr (history_of
         [\<lparr>lw_hash = js ''h2'', parents = [js ''abc123'' @ [0x09] @ js ''def456''],
           lw_date = js ''2024-05-01T10:00:00+02:00'', lw_message = js ''Merge''\<rparr>])"
  by code_simp


section \<open>The status line\<close>

lemma trim_eq_Nil: "trim s = [] \<longleftrightarrow> (\<forall>x\<in>set s. isWhiteSpace x)"
proof -
  let ?u = "dropWhile isWhiteSpace s"
  have "trim s = [] \<longleftrightarrow> (\<forall>x\<in>set ?u. isWhiteSpace x)"
    by (simp add: trim_def)
  also have "\<dots> \<longleftrightarrow> ?u = []"
  proof
    assume a: "\<forall>x\<in>set ?u. isWhiteSpace x"
    show "?u = []"
    proof (rule ccontr)
      assume n: "?u \<noteq> []"
      then have "\<not> isWhiteSpace (hd ?u)" by (rule hd_dropWhile)
      moreover from n have "hd ?u \<in> set ?u" by (rule hd_in_set)
      ultimately show False using a by blast
    qed
  qed (auto dest: set_dropWhileD)
  also have "\<dots> \<longleftrightarrow> (\<forall>x\<in>set s. isWhiteSpace x)"
    by simp
  finally show ?thesis .
qed

lemma trim_idem: "trim (trim s) = trim s"
proof -
  define u where "u = dropWhile isWhiteSpace s"
  define v where "v = dropWhile isWhiteSpace (rev u)"
  have t: "trim s = rev v"
    by (simp add: trim_def u_def v_def)
  have "rev u = takeWhile isWhiteSpace (rev u) @ v"
    by (simp add: v_def)
  then have "rev (rev u) = rev (takeWhile isWhiteSpace (rev u) @ v)"
    by (rule arg_cong)
  then have u: "u = rev v @ rev (takeWhile isWhiteSpace (rev u))"
    by simp
  have front: "dropWhile isWhiteSpace (rev v) = rev v"
  proof (cases "v = []")
    case True
    then show ?thesis by simp
  next
    case False
    with u have "u \<noteq> []" by auto
    then have "\<not> isWhiteSpace (hd u)"
      unfolding u_def by (rule hd_dropWhile)
    moreover from u False have "hd u = hd (rev v)"
      by (metis hd_append2 rev_is_Nil_conv)
    ultimately show ?thesis
      using False by (cases "rev v") auto
  qed
  have rear: "dropWhile isWhiteSpace v = v"
    by (simp add: v_def)
  show ?thesis
    unfolding t by (simp add: trim_def front rear)
qed

lemma field_trim: "i < length parts \<Longrightarrow> field parts i = trim (parts ! i)"
  by (simp add: field_def trim_Nil)

lemma status_line_nonempty: "status_line l \<Longrightarrow> l \<noteq> []"
  by (auto simp: status_line_def)

text \<open>
  Every text is the join of its lines, none of which holds a newline: the rule below
  covers every trailing blob.
\<close>

lemma split_ne_nonempty: "split_ne sep s \<noteq> []"
  by (induction sep s rule: split_ne.induct) (auto split: list.splits)

lemma join_Cons_nonempty: "ws \<noteq> [] \<Longrightarrow> join sep (w # ws) = w @ sep @ join sep ws"
  by (cases ws) auto

lemma join_split_ne: "join [c] (split_ne [c] s) = s"
proof (induction "[c]" s rule: split_ne.induct)
  case 1
  then show ?case by simp
next
  case (2 x xs)
  show ?case
  proof (cases "x = c")
    case True
    with 2 show ?thesis
      by (simp add: join_Cons_nonempty split_ne_nonempty)
  next
    case False
    obtain w ws where sp: "split_ne [c] xs = w # ws"
      using split_ne_nonempty [of "[c]" xs] by (cases "split_ne [c] xs") auto
    with 2 False have "join [c] (w # ws) = xs" by simp
    with sp False show ?thesis
      by (cases ws) auto
  qed
qed

lemma split_ne_pieces: "p \<in> set (split_ne [c] s) \<Longrightarrow> c \<notin> set p"
proof (induction "[c]" s arbitrary: p rule: split_ne.induct)
  case 1
  then show ?case by simp
next
  case (2 x xs)
  show ?case
  proof (cases "x = c")
    case True
    with 2 show ?thesis by auto
  next
    case False
    obtain w ws where sp: "split_ne [c] xs = w # ws"
      using split_ne_nonempty [of "[c]" xs] by (cases "split_ne [c] xs") auto
    with 2 False show ?thesis by auto
  qed
qed

lemma text_has_lines:
  "\<exists>ls l. s = join [c] (ls @ [l]) \<and> (\<forall>x\<in>set (ls @ [l]). c \<notin> set x)"
proof -
  let ?ps = "split_ne [c] s"
  have "?ps \<noteq> []" by (rule split_ne_nonempty)
  then have "?ps = butlast ?ps @ [last ?ps]" by simp
  with join_split_ne [of c s] split_ne_pieces [of _ c s]
  have "s = join [c] (butlast ?ps @ [last ?ps]) \<and>
      (\<forall>x\<in>set (butlast ?ps @ [last ?ps]). c \<notin> set x)"
    by simp
  then show ?thesis by blast
qed

text \<open>
  Claim C4, as amended. With a file filter, the line that is looked at is the last line of
  the trailing blob after white space has been trimmed from both ends of the blob. It is
  taken as the status line if and only if it matches a letter among A, M and D followed by
  white space; then the status of the record is that letter and the body is the text
  before that line, trimmed. Otherwise the status is unknown and the body is the whole
  blob, trimmed. (The claim looks at the last non-empty line of the blob itself; the trim
  removes white space at the end of that line before the test.)
\<close>

theorem status_line_is_last_line_of_trimmed_blob:
  assumes filt: "truthy file"
    and parsed: "parseCommit file raw = Inr r"
    and lines: "trim (trailing_blob raw) = join [0x0A] (ls @ [l])"
    and nl: "\<forall>x\<in>set (ls @ [l]). 0x0A \<notin> set x"
  shows "(status_line l \<longrightarrow> status r = Some [hd l] \<and> body r = trim (join [0x0A] ls)) \<and>
         (\<not> status_line l \<longrightarrow> status r = None \<and> body r = trim (trailing_blob raw))"
proof -
  from nl have "split [0x0A] (join [0x0A] (ls @ [l])) = ls @ [l]"
    by (intro split_join) auto
  with lines have sp: "split [0x0A] (trim (trailing_blob raw)) = ls @ [l]"
    by simp
  from parsed obtain d where
    r: "r = \<lparr>hash = field (split DELIMITER raw) 0, short = field (split DELIMITER raw) 1,
             authorName = field (split DELIMITER raw) 2,
             authorEmail = field (split DELIMITER raw) 3, date = d,
             message = field (split DELIMITER raw) 5,
             body = trim (if status_line l then trim (join [0x0A] ls) else trailing_blob raw),
             status = (if status_line l then Some [hd l] else None)\<rparr>"
    using filt sp status_line_nonempty [of l]
    by (auto simp: parseCommit_def trailing_blob_def Let_def split: sum.splits)
  then show ?thesis
    by (simp add: trim_idem)
qed

theorem status_line_is_last_line_of_trimmed_blob_witness:
  "truthy (Some (js ''notes.txt'')) \<and>
   parseCommit (Some (js ''notes.txt'')) (join DELIMITER example_fields) = Inr example_commit \<and>
   trim (trailing_blob (join DELIMITER example_fields))
     = join [0x0A] ([js ''Tune the scene'', []] @ [js ''M'' @ [0x09] @ js ''notes.txt'']) \<and>
   0x0A \<notin> set (js ''Tune the scene'') \<and> 0x0A \<notin> set (js ''M'' @ [0x09] @ js ''notes.txt'') \<and>
   status_line (js ''M'' @ [0x09] @ js ''notes.txt'') \<and>
   status example_commit = Some (js ''M'') \<and>
   body example_commit = js ''Tune the scene'' \<and>
   parseCommit (Some (js ''notes.txt'')) (join DELIMITER trailing_space_fields)
     = Inr trailing_space_commit \<and>
   trim (trailing_blob (join DELIMITER trailing_space_fields))
     = join [0x0A] ([js ''note''] @ [js ''M'']) \<and>
   0x0A \<notin> set (js ''note'') \<and> 0x0A \<notin> set (js ''M'') \<and>
   \<not> status_line (js ''M'') \<and>
   status trailing_space_commit = None \<and>
   body trailing_space_commit = js ''note\<newline>M''"
proof -
  let ?f = "Some (js ''notes.txt'')"
  let ?ls = "[js ''Tune the scene'', []]"
  let ?l = "js ''M'' @ [0x09] @ js ''notes.txt''"
  have filt: "truthy ?f"
    by (simp add: truthy_def js_def)
  have parsed: "parseCommit ?f (join DELIMITER example_fields) = Inr example_commit"
    by code_simp
  have lines: "trim (trailing_blob (join DELIMITER example_fields)) = join [0x0A] (?ls @ [?l])"
    by code_simp
  have nl: "\<forall>x\<in>set (?ls @ [?l]). 0x0A \<notin> set x"
    by (simp add: js_def)
  have st: "status_line ?l"
    by (simp add: status_line_def js_def isWhiteSpace_def)
  have hd: "[hd ?l] = js ''M''"
    by (simp add: js_def)
  have tr: "trim (join [0x0A] ?ls) = js ''Tune the scene''"
    by code_simp
  from status_line_is_last_line_of_trimmed_blob [OF filt parsed lines nl] st
  have one: "status example_commit = Some (js ''M'') \<and> body example_commit = js ''Tune the scene''"
    by (simp only: hd tr simp_thms)
  have parsed': "parseCommit ?f (join DELIMITER trailing_space_fields) = Inr trailing_space_commit"
    by code_simp
  have lines': "trim (trailing_blob (join DELIMITER trailing_space_fields))
      = join [0x0A] ([js ''note''] @ [js ''M''])"
    by code_simp
  have nl': "\<forall>x\<in>set ([js ''note''] @ [js ''M'']). 0x0A \<notin> set x"
    by (simp add: js_def)
  have st': "\<not> status_line (js ''M'')"
    by (simp add: status_line_def js_def)
  have tr': "trim (trailing_blob (join DELIMITER trailing_space_fields)) = js ''note\<newline>M''"
    by code_simp
  from status_line_is_last_line_of_trimmed_blob [OF filt parsed' lines' nl'] st'
  have two: "status trailing_space_commit = None \<and> body trailing_space_commit = js ''note\<newline>M''"
    by (simp only: tr' trim_idem simp_thms)
  have nls: "0x0A \<notin> set (js ''Tune the scene'') \<and> 0x0A \<notin> set ?l \<and>
      0x0A \<notin> set (js ''note'') \<and> 0x0A \<notin> set (js ''M'')"
    by (simp add: js_def)
  from filt parsed lines nls st one parsed' lines' st' two show ?thesis
    by (simp only: simp_thms)
qed

text \<open>
  Claim C4 as stated fails on a body whose last line is the letter M and a space: that line matches
  the pattern, and yet the record has no status and keeps the line, without the space, in
  its body.
\<close>

theorem letter_and_space_is_not_a_status:
  "split [0x0A] (trailing_blob (join DELIMITER trailing_space_fields)) = [js ''note'', js ''M ''] \<and>
   status_line (js ''M '') \<and>
   gitLog (example_world (\<lambda>args. Inr (render_log [trailing_space_fields])))
     (OptObject None (Some (js ''notes.txt'')))
     = Inr (history_of [trailing_space_commit])"
  by code_simp

section \<open>Well-formed logs\<close>

lemma COMMIT_DELIMITER_hd: "COMMIT_DELIMITER \<noteq> [] \<and> hd COMMIT_DELIMITER = 0xB1"
  by (simp add: COMMIT_DELIMITER_def)

lemma split_records:
  assumes "0xB1 \<notin> set f" and "\<forall>x\<in>set xs. 0xB1 \<notin> set (g x)"
  shows "split_ne COMMIT_DELIMITER (f @ concat (map (\<lambda>x. COMMIT_DELIMITER @ g x) xs))
           = f # map g xs"
  using assms
proof (induction xs arbitrary: f)
  case Nil
  then show ?case
    using COMMIT_DELIMITER_hd by (simp add: split_ne_no_sep)
next
  case (Cons x xs)
  from Cons.prems have "split_ne COMMIT_DELIMITER
      (f @ COMMIT_DELIMITER @ (g x @ concat (map (\<lambda>x. COMMIT_DELIMITER @ g x) xs)))
    = f # split_ne COMMIT_DELIMITER (g x @ concat (map (\<lambda>x. COMMIT_DELIMITER @ g x) xs))"
    using COMMIT_DELIMITER_hd by (intro split_ne_append) auto
  also from Cons.prems have "split_ne COMMIT_DELIMITER
      (g x @ concat (map (\<lambda>x. COMMIT_DELIMITER @ g x) xs)) = g x # map g xs"
    by (intro Cons.IH) auto
  finally show ?case by simp
qed

lemma sentinel_free_join:
  assumes "list_all sentinel_free fs"
  shows "0xB1 \<notin> set (join DELIMITER fs)"
proof
  assume "0xB1 \<in> set (join DELIMITER fs)"
  with set_join [of DELIMITER fs] have "0xB1 \<in> set DELIMITER \<union> \<Union> (set ` set fs)"
    by blast
  with assms show False
    by (auto simp: DELIMITER_def list_all_iff sentinel_free_def)
qed

lemma fragment_not_blank:
  assumes "2 \<le> length fs"
  shows "trim (join DELIMITER fs) \<noteq> []"
proof -
  from assms obtain x y ys where "fs = x # y # ys"
    by (cases fs; cases "tl fs") auto
  then have "0xA7 \<in> set (join DELIMITER fs)"
    by (simp add: DELIMITER_def)
  moreover have "\<not> isWhiteSpace 0xA7"
    by (simp add: isWhiteSpace_def)
  ultimately show ?thesis
    by (auto simp: trim_eq_Nil)
qed

lemma split_wellformed:
  assumes "wellformed_record fs"
  shows "split DELIMITER (join DELIMITER fs) = fs"
proof -
  from assms have "fs \<noteq> []" and "\<forall>x\<in>set fs. hd DELIMITER \<notin> set x"
    using DELIMITER_hd by (auto simp: wellformed_record_def list_all_iff sentinel_free_def)
  then show ?thesis
    using DELIMITER_hd by (intro split_join) auto
qed

lemma parseCommit_wellformed:
  assumes wf: "wellformed_record fs"
  shows "\<exists>c. parseCommit file (join DELIMITER fs) = Inr c \<and>
           hash c = trim (fs ! 0) \<and> short c = trim (fs ! 1) \<and>
           authorName c = trim (fs ! 2) \<and> authorEmail c = trim (fs ! 3) \<and>
           message c = trim (fs ! 5)"
proof -
  from wf have len: "length fs = 7"
    by (simp add: wellformed_record_def)
  from wf obtain d where "date_of_timestamp (trim (fs ! 4)) = Inr d"
    by (auto simp: wellformed_record_def timestamp_ok_def date_of_timestamp_def
        split: option.splits)
  with len show ?thesis
    by (simp add: parseCommit_def split_wellformed [OF wf] Let_def field_trim)
qed

lemma map_throwing_defined:
  "\<forall>x\<in>set xs. \<exists>y. f x = Inr y \<Longrightarrow> map_throwing f xs = Inr (map (\<lambda>x. projr (f x)) xs)"
  by (induction xs) auto

lemma parse_log_wellformed:
  assumes wf: "\<forall>fs\<in>set recs. wellformed_record fs"
  shows "parse_log file (render_log recs)
           = Inr (history_of (map (\<lambda>fs. projr (parseCommit file (join DELIMITER fs))) recs))"
proof (cases "recs = []")
  case True
  then show ?thesis
    by (simp add: parse_log_def render_log_def trim_Nil history_of_def)
next
  case False
  let ?frag = "join DELIMITER"
  have "render_record = (\<lambda>fs. COMMIT_DELIMITER @ ?frag fs)"
    by (rule ext) (simp add: render_record_def)
  then have shape: "render_log recs = [] @ concat (map (\<lambda>fs. COMMIT_DELIMITER @ ?frag fs) recs)"
    by (simp add: render_log_def)
  from wf have "\<forall>fs\<in>set recs. 0xB1 \<notin> set (?frag fs)"
    using sentinel_free_join by (simp add: wellformed_record_def)
  then have "split_ne COMMIT_DELIMITER (render_log recs) = [] # map ?frag recs"
    unfolding shape by (intro split_records) auto
  then have pieces: "split COMMIT_DELIMITER (render_log recs) = [] # map ?frag recs"
    using COMMIT_DELIMITER_hd by (simp add: split_def)
  from wf have keep: "\<forall>fs\<in>set recs. trim (?frag fs) \<noteq> []"
    using fragment_not_blank by (simp add: wellformed_record_def)
  then have raws: "filter (\<lambda>c. trim c \<noteq> []) (split COMMIT_DELIMITER (render_log recs))
      = map ?frag recs"
    by (simp add: pieces trim_Nil filter_map o_def)
  from False obtain fs rest where "recs = fs # rest"
    by (cases recs) auto
  then have "0xB1 \<in> set (render_log recs)"
    by (simp add: render_log_def render_record_def COMMIT_DELIMITER_def)
  moreover have "\<not> isWhiteSpace 0xB1"
    by (simp add: isWhiteSpace_def)
  ultimately have nonblank: "trim (render_log recs) \<noteq> []"
    by (auto simp: trim_eq_Nil)
  from wf have "\<forall>raw\<in>set (map ?frag recs). \<exists>c. parseCommit file raw = Inr c"
    using parseCommit_wellformed by fastforce
  from map_throwing_defined [OF this]
  have "map_throwing (parseCommit file) (map ?frag recs)
      = Inr (map (\<lambda>fs. projr (parseCommit file (?frag fs))) recs)"
    by (simp add: o_def)
  with nonblank raws show ?thesis
    by (simp add: parse_log_def)
qed

text \<open>
  A timestamp of one to twelve decimal digits, as git writes it for any commit date from
  1970 to beyond the year 33000, is well formed.
\<close>

lemma decimal_uint: "is_decimal c \<Longrightarrow> 48 \<le> uint c \<and> uint c \<le> 57"
  by (simp add: is_decimal_def word_le_def)

lemma decimal_not_white: "is_decimal c \<Longrightarrow> \<not> isWhiteSpace c"
  using decimal_uint [of c] by (auto simp: isWhiteSpace_def word_le_def)

lemma decimal_digit_of: "is_decimal c \<Longrightarrow> digit_of 10 c = Some (uint c - 48)"
  by (simp add: digit_of_def is_decimal_def)

lemma trim_id:
  assumes "s \<noteq> []" and "\<not> isWhiteSpace (hd s)" and "\<not> isWhiteSpace (last s)"
  shows "trim s = s"
proof -
  from assms have "dropWhile isWhiteSpace s = s"
    by (cases s) auto
  moreover from assms have "dropWhile isWhiteSpace (rev s) = rev s"
    by (cases "rev s") (auto simp: hd_rev)
  ultimately show ?thesis
    by (simp add: trim_def)
qed

lemma decimal_value_bound:
  assumes "\<forall>c\<in>set ds. is_decimal c" and "0 \<le> a"
  shows "0 \<le> foldl (\<lambda>acc c. acc * 10 + the (digit_of 10 c)) a ds \<and>
         foldl (\<lambda>acc c. acc * 10 + the (digit_of 10 c)) a ds < (a + 1) * 10 ^ length ds"
  using assms
proof (induction ds arbitrary: a)
  case Nil
  then show ?case by simp
next
  case (Cons c ds)
  let ?d = "the (digit_of 10 c)"
  from Cons.prems decimal_uint [of c] have d: "0 \<le> ?d \<and> ?d \<le> 9"
    by (simp add: decimal_digit_of)
  with Cons.prems have a': "0 \<le> a * 10 + ?d" by simp
  from Cons.IH [OF _ a'] Cons.prems
  have ih: "0 \<le> foldl (\<lambda>acc c. acc * 10 + the (digit_of 10 c)) (a * 10 + ?d) ds \<and>
      foldl (\<lambda>acc c. acc * 10 + the (digit_of 10 c)) (a * 10 + ?d) ds
        < (a * 10 + ?d + 1) * 10 ^ length ds"
    by simp
  from d have "a * 10 + ?d + 1 \<le> (a + 1) * 10" by simp
  then have "(a * 10 + ?d + 1) * 10 ^ length ds \<le> ((a + 1) * 10) * 10 ^ length ds"
    by (intro mult_right_mono) simp_all
  then have le: "(a * 10 + ?d + 1) * 10 ^ length ds \<le> (a + 1) * (10 * 10 ^ length ds)"
    by (simp only: mult.assoc)
  from ih have "foldl (\<lambda>acc c. acc * 10 + the (digit_of 10 c)) (a * 10 + ?d) ds
      < (a * 10 + ?d + 1) * 10 ^ length ds" ..
  also note le
  finally have "foldl (\<lambda>acc c. acc * 10 + the (digit_of 10 c)) (a * 10 + ?d) ds
      < (a + 1) * (10 * 10 ^ length ds)" .
  with ih show ?case by simp
qed

lemma parseInt_decimal:
  assumes ne: "ds \<noteq> []" and dec: "\<forall>c\<in>set ds. is_decimal c"
  shows "parseInt ds = Some (foldl (\<lambda>acc c. acc * 10 + the (digit_of 10 c)) 0 ds)"
proof -
  from ne dec have h: "is_decimal (hd ds)" by simp
  with decimal_not_white have w: "dropWhile isWhiteSpace ds = ds"
    using ne by (cases ds) auto
  from h decimal_uint [of "hd ds"] have sign: "hd ds \<noteq> 0x2D \<and> hd ds \<noteq> 0x2B"
    by auto
  have nohex: "take 2 ds \<noteq> [0x30, 0x78] \<and> take 2 ds \<noteq> [0x30, 0x58]"
  proof -
    have "\<not> is_decimal 0x78" and "\<not> is_decimal 0x58"
      by (simp_all add: is_decimal_def)
    moreover have "take 2 ds = [0x30, c] \<Longrightarrow> c \<in> set ds" for c
      by (metis in_set_takeD list.set_intros(1) list.set_intros(2))
    ultimately show ?thesis using dec by blast
  qed
  from dec have every: "takeWhile (\<lambda>c. digit_of 10 c \<noteq> None) ds = ds"
    by (simp add: decimal_digit_of)
  from ne w sign nohex show ?thesis
    by (simp add: parseInt_def Let_def every del: not_None_eq)
qed

lemma decimal_timestamp_ok:
  assumes ne: "ds \<noteq> []" and dec: "\<forall>c\<in>set ds. is_decimal c" and len: "length ds \<le> 12"
  shows "timestamp_ok ds"
proof -
  let ?v = "foldl (\<lambda>acc c. acc * 10 + the (digit_of 10 c)) 0 ds"
  from ne dec have "is_decimal (hd ds)" and "is_decimal (last ds)" by simp_all
  with ne have t: "trim ds = ds"
    by (intro trim_id decimal_not_white)
  from decimal_value_bound [OF dec, of 0] have v: "0 \<le> ?v \<and> ?v < 10 ^ length ds"
    by simp
  from len have "(10::int) ^ length ds \<le> 10 ^ 12"
    by (intro power_increasing) simp_all
  with v have "\<bar>?v * 1000\<bar> \<le> 8640000000000000" by simp
  with t parseInt_decimal [OF ne dec] show ?thesis
    by (simp add: timestamp_ok_def)
qed

text \<open>
  Claim C5. When the output of the command is a well-formed log of N records, \<^verbatim>\<open>gitLog\<close>
  returns N records in the order of the text: the record at each position is the parse of
  the fragment at that position and carries its fields; \<^verbatim>\<open>latest\<close> is the first record
  (\<^verbatim>\<open>null\<close> when there is none) and \<^verbatim>\<open>total\<close> is N.
\<close>

theorem wellformed_log_gives_all_records_in_order:
  assumes wf: "\<forall>fs\<in>set recs. wellformed_record fs"
    and out: "gitExec w (log_args (log_maxCount options) (log_file options))
                = Inr (render_log recs)"
  shows "\<exists>h. gitLog w options = Inr h \<and>
           length (all_commits h) = length recs \<and>
           total_count h = length recs \<and>
           latest h = (if recs = [] then None else Some (all_commits h ! 0)) \<and>
           (\<forall>i<length recs.
              parseCommit (log_file options) (join DELIMITER (recs ! i))
                = Inr (all_commits h ! i) \<and>
              hash (all_commits h ! i) = trim (recs ! i ! 0) \<and>
              short (all_commits h ! i) = trim (recs ! i ! 1) \<and>
              authorName (all_commits h ! i) = trim (recs ! i ! 2) \<and>
              authorEmail (all_commits h ! i) = trim (recs ! i ! 3) \<and>
              message (all_commits h ! i) = trim (recs ! i ! 5))"
proof -
  let ?file = "log_file options"
  let ?commits = "map (\<lambda>fs. projr (parseCommit ?file (join DELIMITER fs))) recs"
  from out parse_log_wellformed [OF wf, of ?file]
  have g: "gitLog w options = Inr (history_of ?commits)"
    by (simp add: gitLog_def)
  have each: "\<forall>i<length recs.
      parseCommit ?file (join DELIMITER (recs ! i)) = Inr (?commits ! i) \<and>
      hash (?commits ! i) = trim (recs ! i ! 0) \<and>
      short (?commits ! i) = trim (recs ! i ! 1) \<and>
      authorName (?commits ! i) = trim (recs ! i ! 2) \<and>
      authorEmail (?commits ! i) = trim (recs ! i ! 3) \<and>
      message (?commits ! i) = trim (recs ! i ! 5)"
  proof (intro allI impI)
    fix i assume i: "i < length recs"
    with wf have "wellformed_record (recs ! i)" by simp
    from parseCommit_wellformed [OF this, of ?file] i
    show "parseCommit ?file (join DELIMITER (recs ! i)) = Inr (?commits ! i) \<and>
      hash (?commits ! i) = trim (recs ! i ! 0) \<and>
      short (?commits ! i) = trim (recs ! i ! 1) \<and>
      authorName (?commits ! i) = trim (recs ! i ! 2) \<and>
      authorEmail (?commits ! i) = trim (recs ! i ! 3) \<and>
      message (?commits ! i) = trim (recs ! i ! 5)"
      by auto
  qed
  have first: "latest (history_of ?commits) = (if recs = [] then None else Some (?commits ! 0))"
    by (cases recs) (simp_all add: history_of_def)
  from g each first show ?thesis
    by (intro exI [of _ "history_of ?commits"]) (simp add: history_of_def)
qed

theorem wellformed_log_gives_all_records_in_order_witness:
  "wellformed_record example_fields \<and> wellformed_record example_fields_2 \<and>
   gitExec (example_world (\<lambda>args. Inr (render_log [example_fields, example_fields_2])))
     (log_args (log_maxCount (OptObject (Some 50) (Some (js ''notes.txt''))))
        (log_file (OptObject (Some 50) (Some (js ''notes.txt'')))))
     = Inr (render_log [example_fields, example_fields_2]) \<and>
   (\<exists>h. gitLog (example_world (\<lambda>args. Inr (render_log [example_fields, example_fields_2])))
          (OptObject (Some 50) (Some (js ''notes.txt''))) = Inr h \<and>
        length (all_commits h) = 2 \<and> total_count h = 2 \<and>
        latest h = Some (all_commits h ! 0) \<and>
        hash (all_commits h ! 0) = js ''abc123def'' \<and>
        hash (all_commits h ! 1) = js ''0042beef1'')"
proof -
  let ?recs = "[example_fields, example_fields_2]"
  let ?w = "example_world (\<lambda>args. Inr (render_log ?recs))"
  let ?o = "OptObject (Some 50) (Some (js ''notes.txt''))"
  have wfA: "wellformed_record example_fields" and wfB: "wellformed_record example_fields_2"
    by code_simp+
  then have wf: "\<forall>fs\<in>set ?recs. wellformed_record fs"
    by simp
  have out: "gitExec ?w (log_args (log_maxCount ?o) (log_file ?o)) = Inr (render_log ?recs)"
    by code_simp
  have h0: "trim (example_fields ! 0) = js ''abc123def''"
    and h1: "trim (example_fields_2 ! 0) = js ''0042beef1''"
    by code_simp+
  from wellformed_log_gives_all_records_in_order [OF wf out]
  obtain h where H: "gitLog ?w ?o = Inr h \<and>
           length (all_commits h) = length ?recs \<and>
           total_count h = length ?recs \<and>
           latest h = (if ?recs = [] then None else Some (all_commits h ! 0)) \<and>
           (\<forall>i<length ?recs.
              parseCommit (log_file ?o) (join DELIMITER (?recs ! i))
                = Inr (all_commits h ! i) \<and>
              hash (all_commits h ! i) = trim (?recs ! i ! 0) \<and>
              short (all_commits h ! i) = trim (?recs ! i ! 1) \<and>
              authorName (all_commits h ! i) = trim (?recs ! i ! 2) \<and>
              authorEmail (all_commits h ! i) = trim (?recs ! i ! 3) \<and>
              message (all_commits h ! i) = trim (?recs ! i ! 5))" ..
  then have each: "\<forall>i<length ?recs. hash (all_commits h ! i) = trim (?recs ! i ! 0)"
    by simp
  from each [rule_format, of 0] each [rule_format, of 1]
  have "hash (all_commits h ! 0) = js ''abc123def''" and "hash (all_commits h ! 1) = js ''0042beef1''"
    by (simp_all add: h0 h1)
  with H have found: "gitLog ?w ?o = Inr h \<and>
        length (all_commits h) = 2 \<and> total_count h = 2 \<and>
        latest h = Some (all_commits h ! 0) \<and>
        hash (all_commits h ! 0) = js ''abc123def'' \<and>
        hash (all_commits h ! 1) = js ''0042beef1''"
    by simp
  show ?thesis
    apply (intro conjI)
       apply (rule wfA)
      apply (rule wfB)
     apply (rule out)
    apply (rule exI [of _ h])
    apply (rule found)
    done
qed

end
